theory Spec2Isabelle
  imports Complex_Main
begin

section \<open>Transaction confirmation polling (queryOptions.fetchClient)\<close>

text \<open>
  The data \<open>fetchClient\<close> handles. A \<open>TxResult\<close> is what the awaited \<open>post\<close> promise
  yields; only \<open>success\<close>, \<open>msgs\<close> and \<open>result.txhash\<close> are read, and the type of \<open>msgs\<close>
  is left open. A \<open>TxInfo\<close> is one record of the indexer's \<open>parsedData\<close>; \<open>RawLog\<close> is
  kept as the text its \<open>toString()\<close> gives.
\<close>

record TxResultBody =
  txhash :: string

record 'm TxResult =
  success :: bool
  msgs :: 'm
  result :: TxResultBody

record TxInfo =
  Success :: bool
  RawLog :: string

text \<open>
  What \<open>fetchClient\<close> can throw: \<open>new TxError(txResult.msgs)\<close>, the \<open>stopSignal\<close> it
  was handed, \<open>new Error(fail.RawLog.toString())\<close>, and whatever an awaited promise
  (\<open>stopWithAbortSignal(post, signal)\<close>, \<open>queryTxInfo\<close>) rejects with.
\<close>

datatype 'm thrown = TxError 'm | StopSignal | Error string | Rejected string

datatype 'm outcome = Return "'m TxResult" "TxInfo list" | Throw "'m thrown"

text \<open>The calls by which the function acts on the outside, in the order it makes them.\<close>

datatype 'm event = InProgressUpdate "'m TxResult" | QueryTxInfo string | Sleep nat

text \<open>
  The outside of the loop: \<open>aborted w k\<close> is the value of \<open>signal.aborted\<close> read at the
  top of iteration \<open>k\<close> (counted from 0), and \<open>queryTxInfo w h k\<close> is what the awaited
  \<open>queryTxInfo(client, h)\<close> of iteration \<open>k\<close> yields: \<open>Inr\<close> its \<open>parsedData\<close>, or \<open>Inl\<close> a
  rejection.
\<close>

record world =
  aborted :: "nat \<Rightarrow> bool"
  queryTxInfo :: "string \<Rightarrow> nat \<Rightarrow> string + TxInfo list"

text \<open>
  One pass through the body of \<open>while (true)\<close>: the calls it makes, and \<open>Some\<close> outcome
  when it leaves the loop, \<open>None\<close> when it goes round again.
\<close>

definition iteration :: "world \<Rightarrow> 'm TxResult \<Rightarrow> nat \<Rightarrow> 'm event list \<times> 'm outcome option" where
  "iteration w txResult k =
     (if aborted w k then ([], Some (Throw StopSignal))
      else case queryTxInfo w (txhash (result txResult)) k of
        Inl e \<Rightarrow> ([QueryTxInfo (txhash (result txResult))], Some (Throw (Rejected e)))
      | Inr txInfos \<Rightarrow>
          if length txInfos > 0 then
            (case find (\<lambda>i. \<not> Success i) txInfos of
               Some fail \<Rightarrow>
                 ([QueryTxInfo (txhash (result txResult))], Some (Throw (Error (RawLog fail))))
             | None \<Rightarrow>
                 ([QueryTxInfo (txhash (result txResult))], Some (Return txResult txInfos)))
          else ([QueryTxInfo (txhash (result txResult)), Sleep 500], None))"

text \<open>
  The loop from iteration \<open>k\<close> on. It has no bound, so it is a partial function: \<open>None\<close>
  is the loop that never leaves, \<open>Some (tr, r)\<close> the calls made and the outcome.
\<close>

partial_function (option) poll ::
  "world \<Rightarrow> 'm TxResult \<Rightarrow> nat \<Rightarrow> ('m event list \<times> 'm outcome) option" where
  "poll w txResult k =
     (case iteration w txResult k of
        (evs, r) \<Rightarrow>
          if r = None
          then Option.bind (poll w txResult (Suc k)) (\<lambda>(tr, r'). Some (evs @ tr, r'))
          else map_option (Pair evs) r)"

declare poll.simps [code]

text \<open>
  \<open>fetchClient\<close>. Its first argument is the outcome of
  \<open>await stopWithAbortSignal(post, signal)\<close>: \<open>Inr\<close> the posted result, or \<open>Inl\<close> what the
  await threw.
\<close>

definition fetchClient ::
  "'m thrown + 'm TxResult \<Rightarrow> world \<Rightarrow> ('m event list \<times> 'm outcome) option" where
  "fetchClient post w =
     (case post of
        Inl e \<Rightarrow> Some ([], Throw e)
      | Inr txResult \<Rightarrow>
          if \<not> success txResult then Some ([], Throw (TxError (msgs txResult)))
          else Option.bind (poll w txResult 0)
                 (\<lambda>(tr, r). Some (InProgressUpdate txResult # tr, r)))"

text \<open>
  What an observer has seen once the loop has been through at most \<open>n\<close> iterations: the
  calls so far, and the outcome if the loop has left. This is defined for the loop that
  never leaves, too.
\<close>

fun observe :: "world \<Rightarrow> 'm TxResult \<Rightarrow> nat \<Rightarrow> 'm event list \<times> 'm outcome option" where
  "observe w txResult 0 = ([], None)"
| "observe w txResult (Suc n) =
     (case observe w txResult n of
        (tr, Some r) \<Rightarrow> (tr, Some r)
      | (tr, None) \<Rightarrow> (case iteration w txResult n of (evs, r) \<Rightarrow> (tr @ evs, r)))"

text \<open>\<open>rounds h n\<close>: \<open>n\<close> rounds of a query for \<open>h\<close> and the sleep that follows it.\<close>

definition rounds :: "string \<Rightarrow> nat \<Rightarrow> 'm event list" where
  "rounds h n = concat (replicate n [QueryTxInfo h, Sleep 500])"

text \<open>An iteration goes round again when the signal is not aborted and the answer is empty.\<close>

definition goes_on :: "world \<Rightarrow> 'm TxResult \<Rightarrow> nat \<Rightarrow> bool" where
  "goes_on w txResult k \<longleftrightarrow>
     \<not> aborted w k \<and> queryTxInfo w (txhash (result txResult)) k = Inr []"

text \<open>Sample inputs.\<close>

definition sample_tx :: "string list TxResult" where
  "sample_tx = \<lparr>success = True, msgs = [''MsgExecuteContract''],
                 result = \<lparr>txhash = ''5F3A''\<rparr>\<rparr>"

definition failed_tx :: "string list TxResult" where
  "failed_tx = \<lparr>success = False, msgs = [''MsgExecuteContract''],
                 result = \<lparr>txhash = ''5F3A''\<rparr>\<rparr>"

definition silent_world :: world where
  "silent_world = \<lparr>aborted = (\<lambda>_. False), queryTxInfo = (\<lambda>_ _. Inr [])\<rparr>"

definition ok_info :: TxInfo where
  "ok_info = \<lparr>Success = True, RawLog = ''[]''\<rparr>"

definition bad_info :: TxInfo where
  "bad_info = \<lparr>Success = False, RawLog = ''out of gas''\<rparr>"

definition late_ok_world :: world where
  "late_ok_world =
     \<lparr>aborted = (\<lambda>_. False),
      queryTxInfo = (\<lambda>_ k. if k < 2 then Inr [] else Inr [ok_info, ok_info])\<rparr>"

definition late_bad_world :: world where
  "late_bad_world =
     \<lparr>aborted = (\<lambda>_. False),
      queryTxInfo = (\<lambda>_ k. if k < 2 then Inr [] else Inr [ok_info, bad_info, ok_info])\<rparr>"

definition abort_world :: world where
  "abort_world = \<lparr>aborted = (\<lambda>k. 2 \<le> k), queryTxInfo = (\<lambda>_ _. Inr [])\<rparr>"



definition abort_first_world :: world where
  "abort_first_world =
     \<lparr>aborted = (\<lambda>_. True), queryTxInfo = (\<lambda>_ _. Inr [ok_info])\<rparr>"

definition rejecting_world :: world where
  "rejecting_world =
     \<lparr>aborted = (\<lambda>_. False),
      queryTxInfo = (\<lambda>_ k. if k < 1 then Inr [] else Inl ''Network error'')\<rparr>"

section \<open>Decimal numbers (big.js)\<close>

text \<open>
  The \<open>big.js\<close> library that the arithmetic helpers call is not part of the repository.
  A \<open>Big\<close> holds a sign, decimal digits and an exponent, that is, a rational number
  with a finite decimal expansion; it is modelled by that number. \<open>plus\<close>, \<open>minus\<close> and
  \<open>mul\<close> are exact in big.js; \<open>div\<close> rounds the quotient to \<open>Big.DP = 20\<close> decimal
  places with rounding mode \<open>Big.RM = 1\<close> (half up, that is, half away from zero).
\<close>

type_synonym Big = rat

datatype js_error = BigError string | TypeError string

text \<open>
  A \<open>BigSource\<close> is a string or a \<open>Big\<close> (big.js reads a JavaScript number through its
  printed form, so a number comes under \<open>OfString\<close>).
\<close>

datatype BigSource = OfString string | OfBig Big

definition and_then :: "'e + 'a \<Rightarrow> ('a \<Rightarrow> 'e + 'b) \<Rightarrow> 'e + 'b" where
  "and_then r f = (case r of Inl e \<Rightarrow> Inl e | Inr a \<Rightarrow> f a)"

subsection \<open>Reading a number\<close>

text \<open>
  big.js accepts the strings matched by
  \<^verbatim>\<open>/^-?(\d+(\.\d*)?|\.\d+)(e[+-]?\d+)?$/i\<close> and throws on every other string, the
  empty string among them.
\<close>

definition is_digit :: "char \<Rightarrow> bool" where
  "is_digit c \<longleftrightarrow> c \<in> set ''0123456789''"

definition digit_value :: "char \<Rightarrow> int" where
  "digit_value c = of_char c - 48"

definition digits_value :: "string \<Rightarrow> int" where
  "digits_value ds = foldl (\<lambda>a c. 10 * a + digit_value c) 0 ds"

definition parse_exponent :: "string \<Rightarrow> int option" where
  "parse_exponent s =
     (case s of
        [] \<Rightarrow> Some 0
      | c # r \<Rightarrow>
          if c = CHR ''e'' \<or> c = CHR ''E'' then
            (let (neg, ds) =
                   (case r of
                      [] \<Rightarrow> (False, [])
                    | d # t \<Rightarrow> if d = CHR ''-'' then (True, t)
                               else if d = CHR ''+'' then (False, t) else (False, r))
             in if ds \<noteq> [] \<and> list_all is_digit ds
                then Some ((if neg then - 1 else 1) * digits_value ds) else None)
          else None)"

definition pow10 :: "int \<Rightarrow> rat" where
  "pow10 e = (if 0 \<le> e then 10 ^ nat e else 1 / 10 ^ nat (- e))"

definition parse :: "string \<Rightarrow> js_error + Big" where
  "parse s =
     (let (neg, s1) = (case s of [] \<Rightarrow> (False, [])
                       | c # r \<Rightarrow> if c = CHR ''-'' then (True, r) else (False, s));
          ip = takeWhile is_digit s1;
          r1 = dropWhile is_digit s1;
          (fp, r2) = (case r1 of [] \<Rightarrow> ([], [])
                      | c # t \<Rightarrow> if c = CHR ''.''
                                 then (takeWhile is_digit t, dropWhile is_digit t)
                                 else ([], r1))
      in if ip = [] \<and> fp = [] then Inl (BigError ''[big.js] Invalid number'')
         else case parse_exponent r2 of
                None \<Rightarrow> Inl (BigError ''[big.js] Invalid number'')
              | Some e \<Rightarrow>
                  Inr ((if neg then - 1 else 1) * of_int (digits_value (ip @ fp))
                        * pow10 (e - int (length fp))))"

definition big :: "BigSource \<Rightarrow> js_error + Big" where
  "big src = (case src of OfString s \<Rightarrow> parse s | OfBig b \<Rightarrow> Inr b)"

subsection \<open>Arithmetic\<close>

definition plus_big :: "Big \<Rightarrow> BigSource \<Rightarrow> js_error + Big" where
  "plus_big x src = and_then (big src) (\<lambda>y. Inr (x + y))"

definition minus_big :: "Big \<Rightarrow> BigSource \<Rightarrow> js_error + Big" where
  "minus_big x src = and_then (big src) (\<lambda>y. Inr (x - y))"

definition mul_big :: "Big \<Rightarrow> BigSource \<Rightarrow> js_error + Big" where
  "mul_big x src = and_then (big src) (\<lambda>y. Inr (x * y))"

definition DP :: nat where
  "DP = 20"

definition round_half_up :: "nat \<Rightarrow> rat \<Rightarrow> rat" where
  "round_half_up dp q = sgn q * of_int \<lfloor>\<bar>q\<bar> * 10 ^ dp + 1 / 2\<rfloor> / 10 ^ dp"

definition div_big :: "Big \<Rightarrow> BigSource \<Rightarrow> js_error + Big" where
  "div_big x src =
     and_then (big src)
       (\<lambda>y. if y = 0 then Inl (BigError ''[big.js] Division by zero'')
            else Inr (round_half_up DP (x / y)))"

subsection \<open>Printing a number\<close>

function show_digits :: "int \<Rightarrow> string" where
  "show_digits n = (if n < 10 then [''0123456789'' ! nat n]
                    else show_digits (n div 10) @ [''0123456789'' ! nat (n mod 10)])"
  by pat_completeness auto
termination
  by (relation "measure nat") auto

declare show_digits.simps [simp del]

definition show_int :: "int \<Rightarrow> string" where
  "show_int i = (if i < 0 then ''-'' else '''') @ show_digits \<bar>i\<bar>"

text \<open>
  The number of decimal places of a number whose denominator in lowest terms is \<open>d\<close>
  (a product of twos and fives).
\<close>

function places :: "int \<Rightarrow> nat" where
  "places d = (if d \<le> 0 \<or> gcd d 10 \<le> 1 then 0 else Suc (places (d div gcd d 10)))"
  by pat_completeness auto
termination
proof (relation "measure nat")
  show "wf (measure nat)" by simp
next
  fix d :: int
  assume a: "\<not> (d \<le> 0 \<or> gcd d 10 \<le> 1)"
  then have g: "1 < gcd d 10" and "0 < d" by simp_all
  then have "d div gcd d 10 < d" by (intro int_div_less_self) simp_all
  then show "(d div gcd d 10, d) \<in> measure nat" using \<open>0 < d\<close> by simp
qed

declare places.simps [simp del]

text \<open>\<open>toFixed()\<close> with no argument: normal notation, never an exponent, and \<open>-0\<close> is \<open>0\<close>.\<close>

definition toFixed :: "Big \<Rightarrow> string" where
  "toFixed x =
     (let k = places (snd (quotient_of x));
          m = \<lfloor>\<bar>x\<bar> * 10 ^ k\<rfloor>;
          fd = show_digits (m mod 10 ^ k)
      in (if x < 0 then ''-'' else '''') @ show_digits (m div 10 ^ k) @
         (if k = 0 then '''' else CHR ''.'' # replicate (k - length fd) CHR ''0'' @ fd))"

text \<open>
  \<open>toString()\<close>: exponential notation when the decimal exponent is at or below
  \<open>Big.NE = -7\<close> or at or above \<open>Big.PE = 21\<close>, normal notation otherwise.
\<close>

definition toString :: "Big \<Rightarrow> string" where
  "toString x =
     (let k = places (snd (quotient_of x));
          ds = show_digits \<lfloor>\<bar>x\<bar> * 10 ^ k\<rfloor>;
          e = int (length ds) - 1 - int k
      in if x \<noteq> 0 \<and> (e \<le> - 7 \<or> 21 \<le> e) then
           (let sig = rev (dropWhile (\<lambda>c. c = CHR ''0'') (rev ds))
            in (if x < 0 then ''-'' else '''') @ take 1 sig @
               (if length sig > 1 then CHR ''.'' # drop 1 sig else '''') @
               (if e < 0 then ''e'' else ''e+'') @ show_int e)
         else toFixed x)"

subsection \<open>The helpers of big-math\<close>

text \<open>
  \<open>floor\<close> and \<open>min\<close> come from the package \<open>@anchor-protocol/big-math\<close>, which is not
  under \<open>src/\<close>; the functions that call them take them as parameters. The two
  definitions below serve to run those functions on examples.

  Modelled from the spec: \<open>floor\<close> of \<open>@anchor-protocol/big-math\<close> is missing; it is
  read as the floor of its argument, the greatest integer not above it.
\<close>

definition floor_big :: "Big \<Rightarrow> js_error + Big" where
  "floor_big x = Inr (of_int \<lfloor>x\<rfloor>)"

text \<open>
  Modelled from the spec: \<open>min\<close> of \<open>@anchor-protocol/big-math\<close> is missing; it is read
  as the least of its arguments, each read as a \<open>Big\<close>.
\<close>

fun min_big :: "BigSource list \<Rightarrow> js_error + Big" where
  "min_big [] = Inl (BigError ''[big.js] Invalid number'')"
| "min_big [s] = big s"
| "min_big (s # r) = and_then (big s) (\<lambda>x. and_then (min_big r) (\<lambda>y. Inr (min x y)))"

section \<open>Interest earned (pages/earn/queries/interestEarned.ts)\<close>

record Earned =
  Address :: string
  CurrentDeposit :: string
  Height :: int
  StableDenom :: string
  Timestamp :: int
  TotalDeposit :: string
  TotalWithdraw :: string
  CurrentAnchorBalance :: string

record ExchangeRateRecord =
  StableDenom :: string
  ExchangeRate :: string

text \<open>\<open>now\<close> and \<open>then\<close> are optional fields of \<open>RawData\<close>: \<open>None\<close> is \<open>undefined\<close>.\<close>

record RawData =
  latestExchangeRate :: "ExchangeRateRecord list"
  fallback :: "Earned list"
  now :: "Earned list option"
  then' :: "Earned list option"

text \<open>\<open>xs[0]\<close>, which is \<open>undefined\<close> on the empty array.\<close>

definition first :: "'a list \<Rightarrow> 'a option" where
  "first xs = (case xs of [] \<Rightarrow> None | x # _ \<Rightarrow> Some x)"

text \<open>\<open>then && then.length >= 1 ? then[0] : fallback[0]\<close>\<close>

definition referenceThen :: "RawData \<Rightarrow> Earned option" where
  "referenceThen raw =
     (case RawData.then' raw of
        None \<Rightarrow> first (fallback raw)
      | Some t \<Rightarrow> if length t \<ge> 1 then first t else first (fallback raw))"

text \<open>
  The body of \<open>try\<close>: reading \<open>CurrentDeposit\<close> of an undefined \<open>referenceThen\<close> throws a
  \<open>TypeError\<close>, an operand that is no number makes big.js throw, and \<open>floor\<close> may throw.
\<close>

definition interest_try ::
  "(Big \<Rightarrow> js_error + Big) \<Rightarrow> Big \<Rightarrow> Earned option \<Rightarrow> Earned \<Rightarrow> js_error + string" where
  "interest_try floorBig currentTokenValue refThen referenceNow =
     (case refThen of
        None \<Rightarrow> Inl (TypeError ''Cannot read property CurrentDeposit of undefined'')
      | Some rt \<Rightarrow>
          and_then (minus_big currentTokenValue (OfString (CurrentDeposit rt))) (\<lambda>a.
          and_then (plus_big a (OfString (TotalWithdraw referenceNow))) (\<lambda>b.
          and_then (minus_big b (OfString (TotalDeposit referenceNow))) (\<lambda>c.
          and_then (floorBig c) (\<lambda>d. Inr (toFixed d))))))"

text \<open>
  \<open>dataMap.interestEarned\<close>. Its first argument (written \<open>_\<close> in the source) is not
  used; \<open>Inl\<close> is an exception that leaves the function.
\<close>

definition interestEarned ::
  "(Big \<Rightarrow> js_error + Big) \<Rightarrow> 'd \<Rightarrow> RawData \<Rightarrow> js_error + string" where
  "interestEarned floorBig existing raw =
     (case RawData.now raw of
        None \<Rightarrow> Inr ''0''
      | Some nw \<Rightarrow>
          if length nw = 0 then Inr ''0''
          else
            (let referenceNow = nw ! 0
             in and_then
                  (big (OfString (if length (CurrentAnchorBalance referenceNow) > 0
                                  then CurrentAnchorBalance referenceNow else ''0'')))
                  (\<lambda>balance.
                     case first (latestExchangeRate raw) of
                       None \<Rightarrow> Inl (TypeError ''Cannot read property ExchangeRate of undefined'')
                     | Some rate \<Rightarrow>
                         and_then (mul_big balance (OfString (ExchangeRate rate)))
                           (\<lambda>currentTokenValue.
                              case interest_try floorBig currentTokenValue
                                     (referenceThen raw) referenceNow of
                                Inl _ \<Rightarrow> Inr ''0''
                              | Inr s \<Rightarrow> Inr s))))"

subsection \<open>Query variables\<close>

record Variables =
  walletAddress :: string
  now :: int
  then' :: int

record RawVariables =
  walletAddress :: string
  now :: int
  then' :: int
  stable_denom :: string

text \<open>
  The times are whole numbers of milliseconds, so \<open>Math.floor(now / 1000)\<close> is the
  floor division of the integers.
\<close>

definition mapVariables :: "Variables \<Rightarrow> RawVariables" where
  "mapVariables v =
     \<lparr>RawVariables.walletAddress = Variables.walletAddress v,
      RawVariables.now = Variables.now v div 1000,
      RawVariables.then' = Variables.then' v div 1000,
      stable_denom = ''uusd''\<rparr>"

datatype Period = Total | Year | Month | Week | Day

text \<open>The \<open>Duration\<close> object of date-fns; a field left out is \<open>0\<close>.\<close>

record Duration =
  years :: int
  months :: int
  weeks :: int
  days :: int
  hours :: int
  minutes :: int
  seconds :: int

definition no_duration :: Duration where
  "no_duration = \<lparr>years = 0, months = 0, weeks = 0, days = 0, hours = 0, minutes = 0, seconds = 0\<rparr>"

text \<open>
  \<open>getDates\<close>. The clock (\<open>Date.now()\<close>, milliseconds since the epoch) and the function
  \<open>sub\<close> of date-fns, followed by \<open>getTime()\<close>, are its parameters; the result is the
  pair of its \<open>now\<close> and \<open>then\<close>.
\<close>

definition getDates :: "(int \<Rightarrow> Duration \<Rightarrow> int) \<Rightarrow> int \<Rightarrow> Period \<Rightarrow> int \<times> int" where
  "getDates sub clock period =
     (let now = clock
      in (now,
          if period = Total then 0
          else if period = Year then sub now (no_duration\<lparr>years := 1\<rparr>)
          else if period = Month then sub now (no_duration\<lparr>months := 1\<rparr>)
          else if period = Week then sub now (no_duration\<lparr>weeks := 1\<rparr>)
          else sub now (no_duration\<lparr>days := 1\<rparr>)))"

subsection \<open>date-fns in a runtime whose time zone is UTC\<close>

text \<open>
  date-fns is not part of the repository and works in the local time zone of the
  runtime. \<open>sub_utc\<close> is its \<open>sub\<close> where that zone is UTC: it first goes back whole
  months in the calendar (keeping the day of the month, or the last day of a shorter
  month, and the time of day), then whole days, then the rest.
\<close>

text \<open>
  The Gregorian calendar with the year taken to start on 1 March, so that the leap day
  is its last day: the days from 1 March of year 0 to 1 March of year \<open>y1\<close>, and the
  days from 1 March to the first day of month \<open>mp\<close> (March is 0, February is 11).
\<close>

definition days_before_year :: "int \<Rightarrow> int" where
  "days_before_year y1 =
     (let era = y1 div 400;
          yoe = y1 - era * 400
      in era * 146097 + yoe * 365 + yoe div 4 - yoe div 100)"

definition days_before_month :: "int \<Rightarrow> int" where
  "days_before_month mp = (153 * mp + 2) div 5"

text \<open>
  The number of the day \<open>d\<close> of month \<open>m\<close> of year \<open>y\<close>, counted from 1 January 1970.
\<close>

definition days_from_civil :: "int \<Rightarrow> int \<Rightarrow> int \<Rightarrow> int" where
  "days_from_civil y m d =
     (let y1 = (if m \<le> 2 then y - 1 else y);
          mp = (if m > 2 then m - 3 else m + 9)
      in days_before_year y1 + days_before_month mp + (d - 1) - 719468)"

text \<open>
  The inverse: the day \<open>doe\<close> of a 400-year era that starts on 1 March is split into
  the century, the 4-year cycle and the year, each a whole number of days but for the
  leap day that ends it.
\<close>

definition civil_from_days :: "int \<Rightarrow> int \<times> int \<times> int" where
  "civil_from_days z0 =
     (let z = z0 + 719468;
          era = z div 146097;
          doe = z - era * 146097;
          c = min (doe div 36524) 3;
          r = doe - c * 36524;
          q = min (r div 1461) 24;
          r2 = r - q * 1461;
          yy = min (r2 div 365) 3;
          doy = r2 - yy * 365;
          yoe = c * 100 + q * 4 + yy;
          mp = (5 * doy + 2) div 153;
          d = doy - days_before_month mp + 1;
          m = (if mp < 10 then mp + 3 else mp - 9)
      in (if m \<le> 2 then yoe + era * 400 + 1 else yoe + era * 400, m, d))"

definition ms_per_day :: int where
  "ms_per_day = 86400000"

definition sub_months_utc :: "int \<Rightarrow> int \<Rightarrow> int" where
  "sub_months_utc t n =
     (if n = 0 then t
      else
        (let (y, m, d) = civil_from_days (t div ms_per_day);
             mi = y * 12 + (m - 1) - n;
             y1 = mi div 12;
             m1 = mi mod 12 + 1;
             first_next = (if m1 = 12 then days_from_civil (y1 + 1) 1 1
                           else days_from_civil y1 (m1 + 1) 1);
             daysInMonth = first_next - days_from_civil y1 m1 1
         in days_from_civil y1 m1 (min d daysInMonth) * ms_per_day + t mod ms_per_day))"

definition sub_utc :: "int \<Rightarrow> Duration \<Rightarrow> int" where
  "sub_utc t dur =
     (let dateWithoutMonths = sub_months_utc t (months dur + years dur * 12);
          dateWithoutDays = dateWithoutMonths - (days dur + weeks dur * 7) * ms_per_day
      in dateWithoutDays - (seconds dur + (minutes dur + hours dur * 60) * 60) * 1000)"

section \<open>Selling from a swap simulation (sellFromSimulation)\<close>

record SimulationResponse =
  return_amount :: string
  spread_amount :: string
  commission_amount :: string

record TaxData =
  taxRate :: string
  maxTaxUUSD :: string

text \<open>The result spreads \<open>...simulation\<close> and adds six fields.\<close>

record TradeSimulation = SimulationResponse +
  minimumReceived :: string
  swapFee :: string
  beliefPrice :: string
  maxSpread :: string
  txFee :: string
  fromAmount :: string

text \<open>
  \<open>const maxSpread = 0.1\<close> is a JavaScript number; it prints as \<open>0.1\<close>, which is also how
  big.js reads it.
\<close>

definition maxSpread_number :: string where
  "maxSpread_number = ''0.1''"

definition sellFromSimulation ::
  "(BigSource list \<Rightarrow> js_error + Big) \<Rightarrow> SimulationResponse \<Rightarrow> string \<Rightarrow> TaxData \<Rightarrow> BigSource
     \<Rightarrow> js_error + TradeSimulation" where
  "sellFromSimulation minBig simulation amount taxData fixedGas =
     and_then (big (OfString amount)) (\<lambda>amt.
     and_then (div_big amt (OfString (return_amount simulation))) (\<lambda>beliefPrice.
     and_then (plus_big 1 (OfString (taxRate taxData))) (\<lambda>onePlusRate.
     and_then (div_big amt (OfBig onePlusRate)) (\<lambda>net.
     and_then (minus_big amt (OfBig net)) (\<lambda>taxUncapped.
     and_then (minBig [OfBig taxUncapped, OfString (maxTaxUUSD taxData)]) (\<lambda>tax.
     and_then (big (OfString (return_amount simulation))) (\<lambda>ret.
     and_then (minus_big ret (OfBig tax)) (\<lambda>expectedAmount.
     and_then (minus_big 1 (OfString maxSpread_number)) (\<lambda>rate.
     and_then (mul_big expectedAmount (OfBig rate)) (\<lambda>minimumReceived.
     and_then (big (OfString (commission_amount simulation))) (\<lambda>commission.
     and_then (plus_big commission (OfString (spread_amount simulation))) (\<lambda>swapFee.
     and_then (plus_big tax fixedGas) (\<lambda>txFee.
     and_then (mul_big amt (OfBig beliefPrice)) (\<lambda>fromAmount.
       Inr \<lparr>return_amount = return_amount simulation,
            spread_amount = spread_amount simulation,
            commission_amount = commission_amount simulation,
            minimumReceived = toFixed minimumReceived,
            swapFee = toFixed swapFee,
            beliefPrice = toFixed beliefPrice,
            maxSpread = maxSpread_number,
            txFee = toFixed txFee,
            fromAmount = toString fromAmount\<rparr>))))))))))))))"

section \<open>The settings of big.js as state\<close>

text \<open>
  big.js keeps four settings in properties of its constructor \<open>Big\<close>, which all the
  modules of a page share and any of them may assign: \<open>Big.DP\<close> and \<open>Big.RM\<close>, the
  number of decimal places and the rounding mode of \<open>div\<close>, and \<open>Big.NE\<close> and \<open>Big.PE\<close>,
  the exponents from which \<open>toString\<close> prints in exponential notation. They are the
  state outside their arguments that the calls of the two transforms can reach. No
  file of the repository assigns them, and the sections above hold them at their
  defaults; this section passes them as state through the same two functions: a
  computation takes the settings in force when it starts and returns, with its result
  or the exception it throws, the settings in force when it ends.
\<close>

datatype rounding_mode = RoundDown | RoundHalfUp | RoundHalfEven | RoundUp

record BigSettings =
  Big_DP :: nat
  Big_RM :: rounding_mode
  Big_NE :: int
  Big_PE :: int


type_synonym 'a js = "BigSettings \<Rightarrow> (js_error + 'a) \<times> BigSettings"














subsection \<open>Sample inputs\<close>

definition sample_now :: Earned where
  "sample_now =
     \<lparr>Address = ''terra1x'', CurrentDeposit = ''2500000'', Height = 120,
      Earned.StableDenom = ''uusd'', Timestamp = 1617235200, TotalDeposit = ''3000000'',
      TotalWithdraw = ''500000'', CurrentAnchorBalance = ''3400000.5''\<rparr>"

definition sample_then :: Earned where
  "sample_then =
     \<lparr>Address = ''terra1x'', CurrentDeposit = ''1000000'', Height = 20,
      Earned.StableDenom = ''uusd'', Timestamp = 1614556800, TotalDeposit = ''1000000'',
      TotalWithdraw = ''0'', CurrentAnchorBalance = ''990000''\<rparr>"

definition sample_first :: Earned where
  "sample_first =
     \<lparr>Address = ''terra1x'', CurrentDeposit = ''700000'', Height = 10,
      Earned.StableDenom = ''uusd'', Timestamp = 1614000000, TotalDeposit = ''700000'',
      TotalWithdraw = ''0'', CurrentAnchorBalance = ''695000''\<rparr>"

definition sample_rate :: ExchangeRateRecord where
  "sample_rate = \<lparr>ExchangeRateRecord.StableDenom = ''uusd'', ExchangeRate = ''1.0501''\<rparr>"

definition sample_raw :: RawData where
  "sample_raw =
     \<lparr>latestExchangeRate = [sample_rate], fallback = [sample_first],
      RawData.now = Some [sample_now], RawData.then' = Some [sample_then]\<rparr>"

definition fallback_raw :: RawData where
  "fallback_raw =
     \<lparr>latestExchangeRate = [sample_rate], fallback = [sample_first],
      RawData.now = Some [sample_now], RawData.then' = Some []\<rparr>"

definition no_balance_raw :: RawData where
  "no_balance_raw =
     \<lparr>latestExchangeRate = [sample_rate], fallback = [sample_first],
      RawData.now = Some [sample_now\<lparr>CurrentAnchorBalance := ''''\<rparr>],
      RawData.then' = None\<rparr>"

definition no_rate_raw :: RawData where
  "no_rate_raw =
     \<lparr>latestExchangeRate = [sample_rate\<lparr>ExchangeRate := []\<rparr>], fallback = [sample_first],
      RawData.now = Some [sample_now\<lparr>CurrentAnchorBalance := []\<rparr>],
      RawData.then' = None\<rparr>"

definition no_reference_raw :: RawData where
  "no_reference_raw =
     \<lparr>latestExchangeRate = [sample_rate], fallback = [],
      RawData.now = Some [sample_now], RawData.then' = Some []\<rparr>"

definition mockup_raw :: RawData where
  "mockup_raw =
     \<lparr>latestExchangeRate = [], fallback = [], RawData.now = Some [], RawData.then' = Some []\<rparr>"

definition failing_floor :: "Big \<Rightarrow> js_error + Big" where
  "failing_floor x = Inl (BigError ''[big.js] Invalid number'')"

definition third_simulation :: SimulationResponse where
  "third_simulation =
     \<lparr>return_amount = ''3000000'', spread_amount = ''1500'', commission_amount = ''9000''\<rparr>"

definition even_simulation :: SimulationResponse where
  "even_simulation =
     \<lparr>return_amount = ''4000000'', spread_amount = ''1500.5'', commission_amount = ''9000''\<rparr>"

definition sample_tax :: TaxData where
  "sample_tax = \<lparr>taxRate = ''0.001'', maxTaxUUSD = ''1000000''\<rparr>"

definition no_tax :: TaxData where
  "no_tax = \<lparr>taxRate = ''0'', maxTaxUUSD = ''1000000''\<rparr>"

section \<open>Properties of the polling loop\<close>

subsection \<open>One iteration\<close>

lemma iteration_goes_on:
  "goes_on w tx k \<Longrightarrow>
   iteration w tx k = ([QueryTxInfo (txhash (result tx)), Sleep 500], None)"
  by (simp add: iteration_def goes_on_def)

lemma iteration_None_iff: "snd (iteration w tx k) = None \<longleftrightarrow> goes_on w tx k"
  by (auto simp: iteration_def goes_on_def split: sum.splits option.splits)

lemma iteration_aborted: "aborted w k \<Longrightarrow> iteration w tx k = ([], Some (Throw StopSignal))"
  by (simp add: iteration_def)

lemma find_None_all: "find P xs = None \<longleftrightarrow> (\<forall>x \<in> set xs. \<not> P x)"
  by (induction xs) auto

lemma find_first: "\<forall>x \<in> set pre. \<not> P x \<Longrightarrow> P f \<Longrightarrow> find P (pre @ f # rest) = Some f"
  by (induction pre) auto

lemma iteration_all_success:
  assumes "\<not> aborted w k" "queryTxInfo w (txhash (result tx)) k = Inr txInfos"
    "txInfos \<noteq> []" "\<forall>i \<in> set txInfos. Success i"
  shows "iteration w tx k = ([QueryTxInfo (txhash (result tx))], Some (Return tx txInfos))"
proof -
  have "find (\<lambda>i. \<not> Success i) txInfos = None"
    using assms(4) by (simp add: find_None_all)
  then show ?thesis using assms(1-3) by (simp add: iteration_def)
qed

lemma iteration_first_failure:
  assumes "\<not> aborted w k" "queryTxInfo w (txhash (result tx)) k = Inr (pre @ f # rest)"
    "\<forall>i \<in> set pre. Success i" "\<not> Success f"
  shows "iteration w tx k =
    ([QueryTxInfo (txhash (result tx))], Some (Throw (Error (RawLog f))))"
proof -
  have "find (\<lambda>i. \<not> Success i) (pre @ f # rest) = Some f"
    using assms(3,4) by (intro find_first) auto
  then show ?thesis using assms(1,2) by (simp add: iteration_def)
qed

subsection \<open>The loop\<close>

lemma poll_leaves: "iteration w tx k = (evs, Some r) \<Longrightarrow> poll w tx k = Some (evs, r)"
  by (subst poll.simps) simp

lemma poll_goes_on:
  "goes_on w tx k \<Longrightarrow>
   poll w tx k =
     Option.bind (poll w tx (Suc k))
       (\<lambda>(tr, r). Some (QueryTxInfo (txhash (result tx)) # Sleep 500 # tr, r))"
  by (subst poll.simps) (simp add: iteration_goes_on)

lemma rounds_Suc: "rounds h (Suc n) = QueryTxInfo h # Sleep 500 # rounds h n"
  by (simp add: rounds_def)

lemma rounds_0: "rounds h 0 = []"
  by (simp add: rounds_def)

lemma rounds_snoc: "rounds h (Suc n) = rounds h n @ [QueryTxInfo h, Sleep 500]"
  by (induction n) (simp_all add: rounds_Suc rounds_0)

lemma poll_after_rounds:
  "\<forall>j < n. goes_on w tx (k + j) \<Longrightarrow>
   poll w tx k =
     Option.bind (poll w tx (k + n)) (\<lambda>(tr, r). Some (rounds (txhash (result tx)) n @ tr, r))"
proof (induction n arbitrary: k)
  case 0
  show ?case by (cases "poll w tx k") (auto simp: rounds_0)
next
  case (Suc n)
  have g: "goes_on w tx k" using Suc.prems by (metis add.right_neutral zero_less_Suc)
  have "\<forall>j < n. goes_on w tx (Suc k + j)"
    using Suc.prems by (metis Suc_less_eq add_Suc_shift)
  from Suc.IH[OF this] have
    ih: "poll w tx (Suc k) =
      Option.bind (poll w tx (Suc k + n))
        (\<lambda>(tr, r). Some (rounds (txhash (result tx)) n @ tr, r))" .
  show ?case
    by (cases "poll w tx (Suc k + n)") (auto simp: poll_goes_on[OF g] ih rounds_Suc)
qed

lemma poll_Some_leaves:
  assumes "poll w tx k = Some y"
  shows "\<exists>j \<ge> k. \<not> goes_on w tx j"
proof (rule poll.raw_induct[where P = "\<lambda>w tx k y. \<exists>j \<ge> k. \<not> goes_on w tx j", OF _ assms])
  fix f :: "world \<Rightarrow> 'a TxResult \<Rightarrow> nat \<Rightarrow> ('a event list \<times> 'a outcome) option"
  fix w tx k y
  assume IH: "\<And>w tx k y. f w tx k = Some y \<Longrightarrow> \<exists>j \<ge> k. \<not> goes_on w tx j"
  assume eq: "(case iteration w tx k of
      (evs, r) \<Rightarrow>
        if r = None
        then Option.bind (f w tx (Suc k)) (\<lambda>(tr, r'). Some (evs @ tr, r'))
        else map_option (Pair evs) r) = Some y"
  show "\<exists>j \<ge> k. \<not> goes_on w tx j"
  proof (cases "goes_on w tx k")
    case True
    from eq obtain y' where "f w tx (Suc k) = Some y'"
      by (auto simp: iteration_goes_on[OF True] bind_eq_Some_conv)
    from IH[OF this] obtain j where "Suc k \<le> j" "\<not> goes_on w tx j" by blast
    then show ?thesis by (intro exI[of _ j]) simp
  next
    case False
    then show ?thesis by blast
  qed
qed

lemma poll_first_leave:
  assumes "\<forall>j < n. goes_on w tx j" "iteration w tx n = (evs, Some r)"
  shows "poll w tx 0 = Some (rounds (txhash (result tx)) n @ evs, r)"
proof -
  have "\<forall>j < n. goes_on w tx (0 + j)" using assms(1) by simp
  from poll_after_rounds[OF this] show ?thesis
    by (simp add: poll_leaves[OF assms(2)])
qed

lemma poll_None_iff: "poll w tx 0 = None \<longleftrightarrow> (\<forall>k. goes_on w tx k)"
proof
  assume n: "poll w tx 0 = None"
  show "\<forall>k. goes_on w tx k"
  proof (rule ccontr)
    assume "\<not> (\<forall>k. goes_on w tx k)"
    then obtain k where k: "\<not> goes_on w tx k" by blast
    define m where "m = (LEAST k. \<not> goes_on w tx k)"
    have m: "\<not> goes_on w tx m" unfolding m_def using k by (rule LeastI)
    have before: "\<forall>j < m. goes_on w tx j"
      unfolding m_def using not_less_Least by blast
    obtain evs r where it: "iteration w tx m = (evs, Some r)"
      using m iteration_None_iff[of w tx m] by (cases "iteration w tx m") auto
    from poll_first_leave[OF before it] n show False by simp
  qed
next
  assume a: "\<forall>k. goes_on w tx k"
  show "poll w tx 0 = None"
  proof (cases "poll w tx 0")
    case None
    then show ?thesis .
  next
    case (Some y)
    from poll_Some_leaves[OF this] a show ?thesis by blast
  qed
qed


lemma poll_Some_form:
  assumes "poll w tx 0 = Some (tr, r)"
  shows "\<exists>n evs. (\<forall>j < n. goes_on w tx j) \<and> iteration w tx n = (evs, Some r) \<and>
           tr = rounds (txhash (result tx)) n @ evs"
proof -
  from poll_Some_leaves[OF assms] obtain k where k: "\<not> goes_on w tx k" by blast
  define m where "m = (LEAST k. \<not> goes_on w tx k)"
  have m: "\<not> goes_on w tx m" unfolding m_def using k by (rule LeastI)
  have before: "\<forall>j < m. goes_on w tx j"
    unfolding m_def using not_less_Least by blast
  obtain evs r' where it: "iteration w tx m = (evs, Some r')"
    using m iteration_None_iff[of w tx m] by (cases "iteration w tx m") auto
  from poll_first_leave[OF before it] assms
  have "tr = rounds (txhash (result tx)) m @ evs" "r' = r" by simp_all
  with before it show ?thesis by blast
qed

lemma iteration_never_TxError: "iteration w tx k \<noteq> (evs, Some (Throw (TxError m)))"
  by (auto simp: iteration_def split: sum.splits option.splits)

lemma iteration_leave_events:
  "iteration w tx k = (evs, Some r) \<Longrightarrow> evs = [] \<or> evs = [QueryTxInfo (txhash (result tx))]"
  by (auto simp: iteration_def split: sum.splits option.splits if_splits)

subsection \<open>What an observer sees\<close>

lemma observe_running:
  "\<forall>j < n. goes_on w tx j \<Longrightarrow> observe w tx n = (rounds (txhash (result tx)) n, None)"
proof (induction n)
  case 0
  show ?case by (simp add: rounds_0)
next
  case (Suc n)
  have "observe w tx n = (rounds (txhash (result tx)) n, None)"
    using Suc by simp
  moreover have "goes_on w tx n" using Suc.prems by simp
  ultimately show ?case
    by (simp add: iteration_goes_on rounds_snoc)
qed

lemma observe_left:
  assumes "\<forall>j < k. goes_on w tx j" "iteration w tx k = (evs, Some r)"
  shows "k < n \<Longrightarrow> observe w tx n = (rounds (txhash (result tx)) k @ evs, Some r)"
proof (induction n)
  case 0
  then show ?case by simp
next
  case (Suc n)
  show ?case
  proof (cases "k = n")
    case True
    then show ?thesis using observe_running[OF assms(1)] assms(2) by simp
  next
    case False
    then have "k < n" using Suc.prems by simp
    from Suc.IH[OF this] show ?thesis by simp
  qed
qed

lemma observe_None:
  "observe w tx n = (tr, None) \<Longrightarrow>
   (\<forall>j < n. goes_on w tx j) \<and> tr = rounds (txhash (result tx)) n"
proof (induction n arbitrary: tr)
  case 0
  then show ?case by (simp add: rounds_0)
next
  case (Suc n)
  obtain tr' r' where o: "observe w tx n = (tr', r')" by (cases "observe w tx n")
  with Suc.prems have r': "r' = None" by (cases r') auto
  obtain evs r where it: "iteration w tx n = (evs, r)" by (cases "iteration w tx n")
  from Suc.prems o r' it have "r = None" "tr = tr' @ evs" by simp_all
  then have g: "goes_on w tx n" using it iteration_None_iff[of w tx n] by simp
  from Suc.IH o r' have ih: "\<forall>j < n. goes_on w tx j" "tr' = rounds (txhash (result tx)) n"
    by simp_all
  have "\<forall>j < Suc n. goes_on w tx j" using ih(1) g by (simp add: less_Suc_eq)
  from observe_running[OF this] Suc.prems show ?case
    using \<open>\<forall>j < Suc n. goes_on w tx j\<close> by simp
qed

lemma observe_Some:
  assumes "observe w tx n = (tr, Some r)"
  shows "\<exists>k evs. k < n \<and> (\<forall>j < k. goes_on w tx j) \<and> iteration w tx k = (evs, Some r) \<and>
           tr = rounds (txhash (result tx)) k @ evs"
proof -
  have "\<not> (\<forall>j < n. goes_on w tx j)"
    using observe_running[of n w tx] assms by auto
  then obtain k0 where k0: "k0 < n" "\<not> goes_on w tx k0" by blast
  define m where "m = (LEAST k. \<not> goes_on w tx k)"
  have m: "\<not> goes_on w tx m" unfolding m_def using k0(2) by (rule LeastI)
  have "m \<le> k0" unfolding m_def using k0(2) by (rule Least_le)
  then have mn: "m < n" using k0(1) by simp
  have before: "\<forall>j < m. goes_on w tx j"
    unfolding m_def using not_less_Least by blast
  obtain evs r' where it: "iteration w tx m = (evs, Some r')"
    using m iteration_None_iff[of w tx m] by (cases "iteration w tx m") auto
  from observe_left[OF before it mn] assms
  have "tr = rounds (txhash (result tx)) m @ evs" "r' = r" by simp_all
  with before it mn show ?thesis by blast
qed

lemma poll_observed:
  assumes "poll w tx 0 = Some (tr, r)"
  shows "\<exists>n. observe w tx n = (tr, Some r)"
proof -
  from poll_Some_form[OF assms] obtain n evs where
    "\<forall>j < n. goes_on w tx j" "iteration w tx n = (evs, Some r)"
    "tr = rounds (txhash (result tx)) n @ evs" by blast
  then have "observe w tx (Suc n) = (tr, Some r)"
    using observe_left[of n w tx evs r "Suc n"] by simp
  then show ?thesis ..
qed

text \<open>
  In a run of rounds, possibly ended by one more query, whatever follows a query is a
  sleep of 500.
\<close>

lemma rounds_query_then_sleep:
  assumes "fin = [] \<or> fin = [QueryTxInfo h]"
  shows "Suc i < length (rounds h n @ fin) \<Longrightarrow> (rounds h n @ fin) ! i = QueryTxInfo h' \<Longrightarrow>
         (rounds h n @ fin) ! Suc i = Sleep 500"
proof (induction n arbitrary: i)
  case 0
  then show ?case using assms by (auto simp: rounds_0)
next
  case (Suc n)
  show ?case
  proof (cases i)
    case 0
    then show ?thesis by (simp add: rounds_Suc)
  next
    case (Suc i')
    show ?thesis
    proof (cases i')
      case 0
      with Suc Suc.prems show ?thesis by (simp add: rounds_Suc)
    next
      case (Suc i'')
      with \<open>i = Suc i'\<close> Suc.prems Suc.IH[of i''] show ?thesis
        by (simp add: rounds_Suc)
    qed
  qed
qed

lemma observed_query_then_sleep:
  assumes "Suc i < length (fst (observe w tx n))"
    "fst (observe w tx n) ! i = QueryTxInfo h'"
  shows "fst (observe w tx n) ! Suc i = Sleep 500"
proof (cases "snd (observe w tx n)")
  case None
  then have "observe w tx n = (fst (observe w tx n), None)"
    by (metis prod.collapse)
  from observe_None[OF this]
  have "fst (observe w tx n) = rounds (txhash (result tx)) n @ []" by simp
  with rounds_query_then_sleep[of "[]" "txhash (result tx)" i n h'] assms
  show ?thesis by simp
next
  case (Some r)
  then have "observe w tx n = (fst (observe w tx n), Some r)"
    by (metis prod.collapse)
  from observe_Some[OF this] obtain k evs where
    k: "iteration w tx k = (evs, Some r)"
    "fst (observe w tx n) = rounds (txhash (result tx)) k @ evs" by blast
  from iteration_leave_events[OF k(1)]
  have "evs = [] \<or> evs = [QueryTxInfo (txhash (result tx))]" .
  from rounds_query_then_sleep[OF this, of i k h'] assms k(2)
  show ?thesis by simp
qed


section \<open>Claims about the polling loop\<close>

text \<open>
  C1, as the spec states it: in every execution after a successful post the loop
  queries the indexer until the answer is not empty, and then returns or throws
  according to the records. With the signal aborted at the top of the first iteration
  no query is made at all, though the indexer has a record ready: \<open>stopSignal\<close> is
  thrown.
\<close>

theorem fetchClient_aborted_first_counterexample:
  "success sample_tx \<and>
   queryTxInfo abort_first_world (txhash (result sample_tx)) 0 = Inr [ok_info] \<and>
   fetchClient (Inr sample_tx) abort_first_world =
     Some ([InProgressUpdate sample_tx], Throw StopSignal)"
proof -
  have s: "success sample_tx" by (simp add: sample_tx_def)
  have q: "queryTxInfo abort_first_world (txhash (result sample_tx)) 0 = Inr [ok_info]"
    by (simp add: abort_first_world_def)
  have "iteration abort_first_world sample_tx 0 = ([], Some (Throw StopSignal))"
    by (rule iteration_aborted) (simp add: abort_first_world_def)
  then have "poll abort_first_world sample_tx 0 = Some ([], Throw StopSignal)"
    by (rule poll_leaves)
  then have "fetchClient (Inr sample_tx) abort_first_world =
      Some ([InProgressUpdate sample_tx], Throw StopSignal)"
    using s by (simp add: fetchClient_def)
  with s q show ?thesis by blast
qed

text \<open>
  C1, amended. After a successful post the loop queries the indexer for the
  transaction hash, sleeping after each empty answer, until an answer is not empty,
  unless before that the signal is found aborted at the top of an iteration or a query
  is rejected. With \<open>n\<close> iterations gone round (signal not aborted, answer empty),
  iteration \<open>n\<close> decides: a non-empty answer makes \<open>fetchClient\<close> return
  \<open>{txResult, txInfos}\<close> when every record has \<open>Success\<close>, and throw \<open>Error\<close> of the first
  failing record's \<open>RawLog\<close> when some record has not; an aborted signal makes it throw
  \<open>stopSignal\<close> without that query; a rejected query makes it throw the rejection.
\<close>

theorem fetchClient_loop_exit:
  assumes "success tx"
    and "\<forall>j < n. \<not> aborted w j \<and> queryTxInfo w (txhash (result tx)) j = Inr []"
  shows "(\<forall>txInfos. \<not> aborted w n \<and> queryTxInfo w (txhash (result tx)) n = Inr txInfos \<and>
            txInfos \<noteq> [] \<and> (\<forall>i \<in> set txInfos. Success i) \<longrightarrow>
           fetchClient (Inr tx) w =
             Some (InProgressUpdate tx # rounds (txhash (result tx)) n
                     @ [QueryTxInfo (txhash (result tx))],
                   Return tx txInfos)) \<and>
         (\<forall>pre f rest. \<not> aborted w n \<and>
            queryTxInfo w (txhash (result tx)) n = Inr (pre @ f # rest) \<and>
            (\<forall>i \<in> set pre. Success i) \<and> \<not> Success f \<longrightarrow>
           fetchClient (Inr tx) w =
             Some (InProgressUpdate tx # rounds (txhash (result tx)) n
                     @ [QueryTxInfo (txhash (result tx))],
                   Throw (Error (RawLog f)))) \<and>
         (aborted w n \<longrightarrow>
           fetchClient (Inr tx) w =
             Some (InProgressUpdate tx # rounds (txhash (result tx)) n, Throw StopSignal)) \<and>
         (\<forall>e. \<not> aborted w n \<and> queryTxInfo w (txhash (result tx)) n = Inl e \<longrightarrow>
           fetchClient (Inr tx) w =
             Some (InProgressUpdate tx # rounds (txhash (result tx)) n
                     @ [QueryTxInfo (txhash (result tx))],
                   Throw (Rejected e)))"
proof -
  have before: "\<forall>j < n. goes_on w tx j"
    using assms(2) by (simp add: goes_on_def)
  have leave: "fetchClient (Inr tx) w =
      Some (InProgressUpdate tx # rounds (txhash (result tx)) n @ evs, r)"
    if "iteration w tx n = (evs, Some r)" for evs r
  proof -
    from that have "poll w tx 0 = Some (rounds (txhash (result tx)) n @ evs, r)"
      by (rule poll_first_leave[OF before])
    then show ?thesis using assms(1) by (simp add: fetchClient_def)
  qed
  show ?thesis
  proof (intro conjI allI impI)
    fix txInfos
    assume a: "\<not> aborted w n \<and> queryTxInfo w (txhash (result tx)) n = Inr txInfos \<and>
            txInfos \<noteq> [] \<and> (\<forall>i \<in> set txInfos. Success i)"
    have "iteration w tx n =
        ([QueryTxInfo (txhash (result tx))], Some (Return tx txInfos))"
      by (rule iteration_all_success) (use a in blast)+
    from leave[OF this]
    show "fetchClient (Inr tx) w =
             Some (InProgressUpdate tx # rounds (txhash (result tx)) n
                     @ [QueryTxInfo (txhash (result tx))], Return tx txInfos)" .
  next
    fix pre f rest
    assume a: "\<not> aborted w n \<and>
            queryTxInfo w (txhash (result tx)) n = Inr (pre @ f # rest) \<and>
            (\<forall>i \<in> set pre. Success i) \<and> \<not> Success f"
    have "iteration w tx n =
        ([QueryTxInfo (txhash (result tx))], Some (Throw (Error (RawLog f))))"
      by (rule iteration_first_failure) (use a in blast)+
    from leave[OF this]
    show "fetchClient (Inr tx) w =
             Some (InProgressUpdate tx # rounds (txhash (result tx)) n
                     @ [QueryTxInfo (txhash (result tx))], Throw (Error (RawLog f)))" .
  next
    assume "aborted w n"
    then have "iteration w tx n = ([], Some (Throw StopSignal))"
      by (rule iteration_aborted)
    from leave[OF this]
    show "fetchClient (Inr tx) w =
             Some (InProgressUpdate tx # rounds (txhash (result tx)) n, Throw StopSignal)"
      by simp
  next
    fix e
    assume "\<not> aborted w n \<and> queryTxInfo w (txhash (result tx)) n = Inl e"
    then have "iteration w tx n =
        ([QueryTxInfo (txhash (result tx))], Some (Throw (Rejected e)))"
      by (simp add: iteration_def)
    from leave[OF this]
    show "fetchClient (Inr tx) w =
             Some (InProgressUpdate tx # rounds (txhash (result tx)) n
                     @ [QueryTxInfo (txhash (result tx))], Throw (Rejected e))" .
  qed
qed

theorem fetchClient_loop_exit_witness:
  "fetchClient (Inr sample_tx) late_ok_world =
     Some ([InProgressUpdate sample_tx,
            QueryTxInfo ''5F3A'', Sleep 500, QueryTxInfo ''5F3A'', Sleep 500,
            QueryTxInfo ''5F3A''],
           Return sample_tx [ok_info, ok_info]) \<and>
   fetchClient (Inr sample_tx) late_bad_world =
     Some ([InProgressUpdate sample_tx,
            QueryTxInfo ''5F3A'', Sleep 500, QueryTxInfo ''5F3A'', Sleep 500,
            QueryTxInfo ''5F3A''],
           Throw (Error ''out of gas'')) \<and>
   fetchClient (Inr sample_tx) abort_world =
     Some ([InProgressUpdate sample_tx,
            QueryTxInfo ''5F3A'', Sleep 500, QueryTxInfo ''5F3A'', Sleep 500],
           Throw StopSignal) \<and>
   fetchClient (Inr sample_tx) rejecting_world =
     Some ([InProgressUpdate sample_tx,
            QueryTxInfo ''5F3A'', Sleep 500, QueryTxInfo ''5F3A''],
           Throw (Rejected ''Network error''))"
proof -
  have s: "success sample_tx" by (simp add: sample_tx_def)
  have h: "txhash (result sample_tx) = ''5F3A''" by (simp add: sample_tx_def)
  have r: "rounds ''5F3A'' 2 = ([QueryTxInfo ''5F3A'', Sleep 500, QueryTxInfo ''5F3A'', Sleep 500]
      :: string list event list)"
    "rounds ''5F3A'' (Suc 0) = ([QueryTxInfo ''5F3A'', Sleep 500] :: string list event list)"
    by (simp_all add: rounds_def numeral_2_eq_2)
  have a: "\<forall>j < 2. \<not> aborted late_ok_world j \<and>
      queryTxInfo late_ok_world (txhash (result sample_tx)) j = Inr []"
    "\<not> aborted late_ok_world 2 \<and>
      queryTxInfo late_ok_world (txhash (result sample_tx)) 2 = Inr [ok_info, ok_info] \<and>
      [ok_info, ok_info] \<noteq> [] \<and> (\<forall>i \<in> set [ok_info, ok_info]. Success i)"
    by (simp_all add: late_ok_world_def ok_info_def)
  have b: "\<forall>j < 2. \<not> aborted late_bad_world j \<and>
      queryTxInfo late_bad_world (txhash (result sample_tx)) j = Inr []"
    "\<not> aborted late_bad_world 2 \<and>
      queryTxInfo late_bad_world (txhash (result sample_tx)) 2 =
        Inr ([ok_info] @ bad_info # [ok_info]) \<and>
      (\<forall>i \<in> set [ok_info]. Success i) \<and> \<not> Success bad_info"
    by (simp_all add: late_bad_world_def ok_info_def bad_info_def)
  have c: "\<forall>j < 2. \<not> aborted abort_world j \<and>
      queryTxInfo abort_world (txhash (result sample_tx)) j = Inr []"
    "aborted abort_world 2"
    by (simp_all add: abort_world_def)
  have d: "\<forall>j < 1. \<not> aborted rejecting_world j \<and>
      queryTxInfo rejecting_world (txhash (result sample_tx)) j = Inr []"
    "\<not> aborted rejecting_world 1 \<and>
      queryTxInfo rejecting_world (txhash (result sample_tx)) 1 = Inl ''Network error''"
    by (simp_all add: rejecting_world_def)
  from fetchClient_loop_exit[OF s a(1)] a(2)
  have 1: "fetchClient (Inr sample_tx) late_ok_world =
     Some (InProgressUpdate sample_tx # rounds ''5F3A'' 2 @ [QueryTxInfo ''5F3A''],
           Return sample_tx [ok_info, ok_info])"
    unfolding h by blast
  from fetchClient_loop_exit[OF s b(1)] b(2)
  have 2: "fetchClient (Inr sample_tx) late_bad_world =
     Some (InProgressUpdate sample_tx # rounds ''5F3A'' 2 @ [QueryTxInfo ''5F3A''],
           Throw (Error (RawLog bad_info)))"
    unfolding h by blast
  from fetchClient_loop_exit[OF s c(1)] c(2)
  have 3: "fetchClient (Inr sample_tx) abort_world =
     Some (InProgressUpdate sample_tx # rounds ''5F3A'' 2, Throw StopSignal)"
    unfolding h by blast
  from fetchClient_loop_exit[OF s d(1)] d(2)
  have 4: "fetchClient (Inr sample_tx) rejecting_world =
     Some (InProgressUpdate sample_tx # rounds ''5F3A'' 1 @ [QueryTxInfo ''5F3A''],
           Throw (Rejected ''Network error''))"
    unfolding h by blast
  show ?thesis using 1 2 3 4 by (simp add: r bad_info_def)
qed

text \<open>
  C2, as the spec states it: after a successful post the loop ends after finitely many
  iterations even when the indexer never has a record and the signal is never aborted.
  It does not: on the silent world \<open>fetchClient\<close> never returns.
\<close>

theorem fetchClient_silent_world_diverges:
  "fetchClient (Inr sample_tx) silent_world = None"
proof -
  have "\<forall>k. goes_on silent_world sample_tx k"
    by (simp add: goes_on_def silent_world_def)
  then have "poll silent_world sample_tx 0 = None"
    by (simp add: poll_None_iff)
  then show ?thesis by (simp add: fetchClient_def sample_tx_def)
qed

text \<open>
  C2, amended: the loop has no bound on its retries. After a successful post
  \<open>fetchClient\<close> ends exactly when, at some iteration, the signal is aborted or the
  indexer's answer is something other than the empty list; when neither ever happens it
  runs for ever.
\<close>

theorem fetchClient_ends_iff:
  assumes "success tx"
  shows "(\<exists>y. fetchClient (Inr tx) w = Some y) \<longleftrightarrow>
         (\<exists>k. aborted w k \<or> queryTxInfo w (txhash (result tx)) k \<noteq> Inr [])"
proof -
  have "(\<exists>y. fetchClient (Inr tx) w = Some y) \<longleftrightarrow> poll w tx 0 \<noteq> None"
    using assms by (cases "poll w tx 0") (auto simp: fetchClient_def)
  also have "\<dots> \<longleftrightarrow> \<not> (\<forall>k. goes_on w tx k)"
    by (simp add: poll_None_iff)
  also have "\<dots> \<longleftrightarrow> (\<exists>k. aborted w k \<or> queryTxInfo w (txhash (result tx)) k \<noteq> Inr [])"
    by (auto simp: goes_on_def)
  finally show ?thesis .
qed

theorem fetchClient_ends_iff_witness:
  "success sample_tx \<and>
   (\<exists>y. fetchClient (Inr sample_tx) abort_world = Some y) \<and>
   \<not> (\<exists>y. fetchClient (Inr sample_tx) silent_world = Some y)"
proof -
  have s: "success sample_tx" by (simp add: sample_tx_def)
  have "aborted abort_world 2" by (simp add: abort_world_def)
  then have 1: "\<exists>y. fetchClient (Inr sample_tx) abort_world = Some y"
    using fetchClient_ends_iff[OF s, of abort_world] by blast
  have "\<not> (\<exists>k. aborted silent_world k \<or>
      queryTxInfo silent_world (txhash (result sample_tx)) k \<noteq> Inr [])"
    by (simp add: silent_world_def)
  then have 2: "\<not> (\<exists>y. fetchClient (Inr sample_tx) silent_world = Some y)"
    using fetchClient_ends_iff[OF s, of silent_world] by blast
  show ?thesis using s 1 2 by blast
qed

text \<open>
  C3. When the awaited post result has \<open>success = false\<close>, \<open>fetchClient\<close> throws
  \<open>TxError(txResult.msgs)\<close> having made no call at all, so no indexer query and no
  polling iteration; and a \<open>TxError\<close> is thrown only then.
\<close>

theorem fetchClient_post_failed:
  "(\<not> success tx \<longrightarrow> fetchClient (Inr tx) w = Some ([], Throw (TxError (msgs tx)))) \<and>
   ((\<exists>tr m. fetchClient (Inr tx) w = Some (tr, Throw (TxError m))) \<longleftrightarrow> \<not> success tx)"
proof -
  have 1: "fetchClient (Inr tx) w = Some ([], Throw (TxError (msgs tx)))" if "\<not> success tx"
    using that by (simp add: fetchClient_def)
  have 2: "\<not> success tx" if "fetchClient (Inr tx) w = Some (tr, Throw (TxError m))" for tr m
  proof
    assume s: "success tx"
    from that have "Option.bind (poll w tx 0) (\<lambda>(tr, r). Some (InProgressUpdate tx # tr, r)) =
        Some (tr, Throw (TxError m))"
      using s by (simp add: fetchClient_def)
    then obtain tr' where "poll w tx 0 = Some (tr', Throw (TxError m))"
      by (cases "poll w tx 0") auto
    from poll_Some_form[OF this] obtain n evs where
      "iteration w tx n = (evs, Some (Throw (TxError m)))" by blast
    then show False by (simp add: iteration_never_TxError)
  qed
  from 1 show ?thesis
  proof (intro conjI impI iffI)
    assume "\<exists>tr m. fetchClient (Inr tx) w = Some (tr, Throw (TxError m))"
    then obtain tr m where "fetchClient (Inr tx) w = Some (tr, Throw (TxError m))" by blast
    then show "\<not> success tx" by (rule 2)
  qed blast+
qed

theorem fetchClient_post_failed_witness:
  "\<not> success failed_tx \<and>
   fetchClient (Inr failed_tx) late_ok_world =
     Some ([], Throw (TxError [''MsgExecuteContract'']))"
proof -
  have f: "\<not> success failed_tx" by (simp add: failed_tx_def)
  have "fetchClient (Inr failed_tx) late_ok_world = Some ([], Throw (TxError (msgs failed_tx)))"
    using fetchClient_post_failed[of failed_tx late_ok_world] f by blast
  then show ?thesis using f by (simp add: failed_tx_def)
qed

text \<open>
  C7. In every execution of the loop, ending or not, a sleep of 500 ms lies between any
  two queries of the indexer (each query but the last had an empty answer); and once
  \<open>signal.aborted\<close> holds at the top of an iteration the loop throws \<open>stopSignal\<close> and
  no query is made from then on. The calls of a loop that ends are among those
  observed.
\<close>

theorem polling_sleeps_and_abort:
  "(\<forall>i j h1 h2. i < j \<and> j < length (fst (observe w tx n)) \<and>
       fst (observe w tx n) ! i = QueryTxInfo h1 \<and> fst (observe w tx n) ! j = QueryTxInfo h2 \<longrightarrow>
       (\<exists>m. i < m \<and> m < j \<and> fst (observe w tx n) ! m = Sleep 500)) \<and>
   (aborted w k \<and> snd (observe w tx k) = None \<longrightarrow>
       poll w tx 0 = Some (fst (observe w tx k), Throw StopSignal) \<and>
       (\<forall>n > k. observe w tx n = (fst (observe w tx k), Some (Throw StopSignal)))) \<and>
   (\<forall>tr r. poll w tx 0 = Some (tr, r) \<longrightarrow> (\<exists>n. observe w tx n = (tr, Some r)))"
proof -
  have sleeps: "\<exists>m. i < m \<and> m < j \<and> fst (observe w tx n) ! m = Sleep 500"
    if "i < j" "j < length (fst (observe w tx n))"
      "fst (observe w tx n) ! i = QueryTxInfo h1" "fst (observe w tx n) ! j = QueryTxInfo h2"
    for i j h1 h2
  proof -
    have "Suc i < length (fst (observe w tx n))" using that(1,2) by simp
    from observed_query_then_sleep[OF this that(3)]
    have sl: "fst (observe w tx n) ! Suc i = Sleep 500" .
    then have "Suc i \<noteq> j" using that(4) by auto
    then have "Suc i < j" using that(1) by simp
    with sl show ?thesis by (intro exI[of _ "Suc i"]) simp
  qed
  have abort: "poll w tx 0 = Some (fst (observe w tx k), Throw StopSignal) \<and>
       (\<forall>n > k. observe w tx n = (fst (observe w tx k), Some (Throw StopSignal)))"
    if a: "aborted w k" and o: "snd (observe w tx k) = None"
  proof -
    have "observe w tx k = (fst (observe w tx k), None)"
      using o by (metis prod.collapse)
    from observe_None[OF this]
    have before: "\<forall>j < k. goes_on w tx j"
      and tr: "fst (observe w tx k) = rounds (txhash (result tx)) k" by simp_all
    have it: "iteration w tx k = ([], Some (Throw StopSignal))"
      using a by (rule iteration_aborted)
    have "poll w tx 0 = Some (fst (observe w tx k), Throw StopSignal)"
      using poll_first_leave[OF before it] tr by simp
    moreover have "observe w tx n = (fst (observe w tx k), Some (Throw StopSignal))"
      if "k < n" for n
      using observe_left[OF before it that] tr by simp
    ultimately show ?thesis by blast
  qed
  have whole: "\<exists>n. observe w tx n = (tr, Some r)" if "poll w tx 0 = Some (tr, r)" for tr r
    using that by (rule poll_observed)
  show ?thesis
  proof (intro conjI allI impI)
    fix i j h1 h2
    assume "i < j \<and> j < length (fst (observe w tx n)) \<and>
       fst (observe w tx n) ! i = QueryTxInfo h1 \<and> fst (observe w tx n) ! j = QueryTxInfo h2"
    then show "\<exists>m. i < m \<and> m < j \<and> fst (observe w tx n) ! m = Sleep 500"
      using sleeps by blast
  next
    assume "aborted w k \<and> snd (observe w tx k) = None"
    then show "poll w tx 0 = Some (fst (observe w tx k), Throw StopSignal)"
      using abort by blast
  next
    fix n assume "aborted w k \<and> snd (observe w tx k) = None" "k < n"
    then show "observe w tx n = (fst (observe w tx k), Some (Throw StopSignal))"
      using abort by blast
  next
    fix tr r assume "poll w tx 0 = Some (tr, r)"
    then show "\<exists>n. observe w tx n = (tr, Some r)" by (rule whole)
  qed
qed

theorem polling_sleeps_and_abort_witness:
  "fst (observe abort_world sample_tx 5) =
     [QueryTxInfo ''5F3A'', Sleep 500, QueryTxInfo ''5F3A'', Sleep 500] \<and>
   (\<exists>m. 0 < m \<and> m < 2 \<and> fst (observe abort_world sample_tx 5) ! m = Sleep 500) \<and>
   aborted abort_world 2 \<and>
   poll abort_world sample_tx 0 = Some (fst (observe abort_world sample_tx 2), Throw StopSignal) \<and>
   observe abort_world sample_tx 5 =
     (fst (observe abort_world sample_tx 2), Some (Throw StopSignal))"
proof -
  have it0: "iteration abort_world sample_tx 0 = ([QueryTxInfo ''5F3A'', Sleep 500], None)"
    by (simp add: iteration_def abort_world_def sample_tx_def)
  have it1: "iteration abort_world sample_tx (Suc 0) = ([QueryTxInfo ''5F3A'', Sleep 500], None)"
    by (simp add: iteration_def abort_world_def sample_tx_def)
  have it2: "iteration abort_world sample_tx (Suc (Suc 0)) = ([], Some (Throw StopSignal))"
    by (simp add: iteration_def abort_world_def sample_tx_def)
  have o2: "observe abort_world sample_tx 2 =
      ([QueryTxInfo ''5F3A'', Sleep 500, QueryTxInfo ''5F3A'', Sleep 500], None)"
    by (simp add: numeral_2_eq_2 it0 it1)
  have o5: "observe abort_world sample_tx 5 =
      ([QueryTxInfo ''5F3A'', Sleep 500, QueryTxInfo ''5F3A'', Sleep 500],
       Some (Throw StopSignal))"
    by (simp add: eval_nat_numeral it0 it1 it2)
  have a: "aborted abort_world 2" by (simp add: abort_world_def)
  have q: "(0::nat) < 2 \<and> 2 < length (fst (observe abort_world sample_tx 5)) \<and>
       fst (observe abort_world sample_tx 5) ! 0 = QueryTxInfo ''5F3A'' \<and>
       fst (observe abort_world sample_tx 5) ! 2 = (QueryTxInfo ''5F3A'' :: string list event)"
    by (simp add: o5)
  from polling_sleeps_and_abort[of abort_world sample_tx 5 2] q
  have 1: "\<exists>m. 0 < m \<and> m < 2 \<and> fst (observe abort_world sample_tx 5) ! m = Sleep 500"
    by blast
  from polling_sleeps_and_abort[of abort_world sample_tx 5 2] a o2
  have 2: "poll abort_world sample_tx 0 =
        Some (fst (observe abort_world sample_tx 2), Throw StopSignal) \<and>
      (\<forall>n > 2. observe abort_world sample_tx n =
        (fst (observe abort_world sample_tx 2), Some (Throw StopSignal)))"
    by simp
  then have 3: "observe abort_world sample_tx 5 =
     (fst (observe abort_world sample_tx 2), Some (Throw StopSignal))"
    by simp
  show ?thesis using 1 2 3 a o5 by simp
qed

section \<open>Properties of the decimal numbers\<close>

lemma and_then_Inr [simp]: "and_then (Inr a) f = f a"
  by (simp add: and_then_def)

lemma and_then_Inl [simp]: "and_then (Inl e) f = Inl e"
  by (simp add: and_then_def)

lemma parse_empty: "parse [] = Inl (BigError ''[big.js] Invalid number'')"
  by (simp add: parse_def)

lemma parse_zero: "parse ''0'' = Inr 0"
  by code_simp

lemma parse_maxSpread: "parse maxSpread_number = Inr (1 / 10)"
  by code_simp

lemma places_one: "places 1 = 0"
  by (subst places.simps) simp

lemma toFixed_of_int: "toFixed (of_int n) = show_int n"
proof -
  have a: "\<bar>of_int n :: rat\<bar> = of_int \<bar>n\<bar>" by simp
  show ?thesis
    unfolding toFixed_def show_int_def
    by (simp add: places_one Let_def a del: of_int_abs)
qed

text \<open>
  Division is exact when the quotient has no more than the given number of decimal
  places, and at most half a unit of the last place away from the quotient otherwise.
\<close>

lemma round_half_up_exact:
  assumes "q * 10 ^ dp = of_int n"
  shows "round_half_up dp q = q"
proof -
  have "\<bar>q\<bar> * 10 ^ dp = \<bar>q * 10 ^ dp\<bar>" by (simp add: abs_mult)
  also have "\<dots> = of_int \<bar>n\<bar>" using assms by simp
  finally have a: "\<bar>q\<bar> * 10 ^ dp = of_int \<bar>n\<bar>" .
  have "\<lfloor>(of_int \<bar>n\<bar> :: rat) + 1 / 2\<rfloor> = \<bar>n\<bar>" by linarith
  then have "round_half_up dp q = sgn q * (\<bar>q\<bar> * 10 ^ dp) / 10 ^ dp"
    unfolding round_half_up_def a by simp
  also have "\<dots> = sgn q * \<bar>q\<bar>" by simp
  also have "\<dots> = q" by (simp add: sgn_mult_abs)
  finally show ?thesis .
qed

lemma round_half_up_error: "\<bar>round_half_up dp q - q\<bar> \<le> 1 / (2 * 10 ^ dp)"
proof -
  define y where "y = \<bar>q\<bar> * 10 ^ dp"
  define r where "r = \<lfloor>y + 1 / 2\<rfloor>"
  have r: "\<bar>of_int r - y\<bar> \<le> 1 / 2" unfolding r_def by linarith
  have q: "q = sgn q * y / 10 ^ dp" unfolding y_def by (simp add: sgn_mult_abs)
  have "round_half_up dp q - q = sgn q * of_int r / 10 ^ dp - sgn q * y / 10 ^ dp"
    unfolding round_half_up_def r_def y_def using q y_def by simp
  also have "\<dots> = sgn q * ((of_int r - y) / 10 ^ dp)"
    by (simp add: algebra_simps diff_divide_distrib)
  finally have "\<bar>round_half_up dp q - q\<bar> = \<bar>sgn q\<bar> * (\<bar>of_int r - y\<bar> / 10 ^ dp)"
    by (simp add: abs_mult)
  also have "\<dots> \<le> 1 * (\<bar>of_int r - y\<bar> / 10 ^ dp)"
    by (intro mult_right_mono) (auto simp: sgn_if)
  also have "\<dots> \<le> 1 * ((1 / 2) / 10 ^ dp)"
    by (intro mult_left_mono divide_right_mono r) simp_all
  finally show ?thesis by simp
qed

text \<open>Printing an integer and reading it back gives the integer.\<close>

lemma digit_char:
  assumes "0 \<le> d" "d \<le> 9"
  shows "is_digit (''0123456789'' ! nat d) \<and> digit_value (''0123456789'' ! nat d) = d"
proof -
  from assms have "d = 0 \<or> d = 1 \<or> d = 2 \<or> d = 3 \<or> d = 4 \<or> d = 5 \<or> d = 6 \<or> d = 7 \<or>
      d = 8 \<or> d = 9"
    by presburger
  then show ?thesis
    by (elim disjE) (simp_all add: is_digit_def digit_value_def)
qed

lemma digits_value_snoc: "digits_value (ds @ [c]) = 10 * digits_value ds + digit_value c"
  by (simp add: digits_value_def)

lemma show_digits_digits:
  "0 \<le> n \<Longrightarrow> list_all is_digit (show_digits n) \<and> show_digits n \<noteq> [] \<and>
     digits_value (show_digits n) = n"
proof (induction n rule: show_digits.induct)
  case (1 n)
  show ?case
  proof (cases "n < 10")
    case True
    then have s: "show_digits n = [''0123456789'' ! nat n]"
      by (subst show_digits.simps) simp
    from digit_char[of n] True 1(2) show ?thesis
      unfolding s by (simp add: digits_value_def)
  next
    case False
    then have s: "show_digits n = show_digits (n div 10) @ [''0123456789'' ! nat (n mod 10)]"
      by (subst show_digits.simps) simp
    have "0 \<le> n div 10" using 1(2) by (simp add: pos_imp_zdiv_nonneg_iff)
    from 1(1)[OF False this] have ih: "list_all is_digit (show_digits (n div 10))"
      "digits_value (show_digits (n div 10)) = n div 10" by simp_all
    have dc: "is_digit (''0123456789'' ! nat (n mod 10))"
      "digit_value (''0123456789'' ! nat (n mod 10)) = n mod 10"
      using digit_char[of "n mod 10"] by simp_all
    show ?thesis unfolding s using ih dc by (simp add: digits_value_snoc)
  qed
qed

lemma parse_digits:
  assumes "list_all is_digit ds" "ds \<noteq> []"
  shows "parse ds = Inr (of_int (digits_value ds))"
proof -
  obtain c r where ds: "ds = c # r" using assms(2) by (cases ds) auto
  have "is_digit c" using assms(1) ds by simp
  then have c: "c \<noteq> CHR ''-''" by (auto simp: is_digit_def)
  have t: "takeWhile is_digit ds = ds" "dropWhile is_digit ds = []"
    using assms(1) by (simp_all add: list_all_iff)
  have "parse (c # r) = Inr (of_int (digits_value (c # r)))"
    unfolding parse_def using c assms(2)
    by (simp add: Let_def t[unfolded ds] parse_exponent_def pow10_def del: takeWhile.simps dropWhile.simps)
  then show ?thesis by (simp add: ds)
qed

lemma parse_minus_digits:
  assumes "list_all is_digit ds" "ds \<noteq> []"
  shows "parse (CHR ''-'' # ds) = Inr (- of_int (digits_value ds))"
proof -
  have t: "takeWhile is_digit ds = ds" "dropWhile is_digit ds = []"
    using assms(1) by (simp_all add: list_all_iff)
  show ?thesis
    unfolding parse_def using assms(2)
    by (simp add: Let_def t parse_exponent_def pow10_def)
qed

lemma parse_show_int: "parse (show_int n) = Inr (of_int n)"
proof (cases "n < 0")
  case True
  then have "0 \<le> \<bar>n\<bar>" by simp
  from show_digits_digits[OF this] parse_minus_digits[of "show_digits \<bar>n\<bar>"] True
  show ?thesis by (simp add: show_int_def)
next
  case False
  then have "0 \<le> \<bar>n\<bar>" by simp
  from show_digits_digits[OF this] parse_digits[of "show_digits \<bar>n\<bar>"] False
  show ?thesis by (simp add: show_int_def)
qed

section \<open>Properties of the interest earned\<close>

lemma referenceThen_then: "RawData.then' raw = Some (rf # ts) \<Longrightarrow> referenceThen raw = Some rf"
  by (simp add: referenceThen_def first_def)

lemma referenceThen_chosen:
  assumes "(\<exists>ts. RawData.then' raw = Some (rf # ts)) \<or>
           ((RawData.then' raw = None \<or> RawData.then' raw = Some []) \<and>
            (\<exists>fs. fallback raw = rf # fs))"
  shows "referenceThen raw = Some rf"
  using assms
proof (elim disjE conjE exE)
  fix ts assume "RawData.then' raw = Some (rf # ts)"
  then show ?thesis by (rule referenceThen_then)
next
  fix fs assume "RawData.then' raw = None" "fallback raw = rf # fs"
  then show ?thesis by (simp add: referenceThen_def first_def)
next
  fix fs assume "RawData.then' raw = Some []" "fallback raw = rf # fs"
  then show ?thesis by (simp add: referenceThen_def first_def)
qed

lemma interestEarned_no_records:
  "RawData.now raw = None \<or> RawData.now raw = Some [] \<Longrightarrow>
   interestEarned floorBig existing raw = Inr ''0''"
  by (auto simp: interestEarned_def)

lemma interestEarned_reaches_try:
  assumes "RawData.now raw = Some (nw # ns)"
    and "latestExchangeRate raw = xr # rs"
    and "parse (if length (CurrentAnchorBalance nw) > 0 then CurrentAnchorBalance nw else ''0'')
           = Inr balance"
    and "parse (ExchangeRate xr) = Inr er"
  shows "interestEarned floorBig existing raw =
           (case interest_try floorBig (balance * er) (referenceThen raw) nw of
              Inl _ \<Rightarrow> Inr ''0''
            | Inr s \<Rightarrow> Inr s)"
  using assms
  by (simp add: interestEarned_def first_def big_def mul_big_def Let_def)

lemma interest_try_value:
  assumes "parse (CurrentDeposit rf) = Inr cd"
    and "parse (TotalWithdraw nw) = Inr tw"
    and "parse (TotalDeposit nw) = Inr td"
  shows "interest_try floorBig v (Some rf) nw =
           and_then (floorBig (v - cd + tw - td)) (\<lambda>d. Inr (toFixed d))"
  using assms
  by (simp add: interest_try_def big_def minus_big_def plus_big_def)

lemma parse_Inr_nonempty: "parse s = Inr x \<Longrightarrow> length s > 0"
  by (cases s) (simp_all add: parse_empty)

text \<open>
  C4. With \<open>now\<close> and \<open>latestExchangeRate\<close> non-empty and the strings read being
  decimal numbers, \<open>interestEarned\<close> returns, printed by \<open>toFixed\<close>, the floor of
  \<open>now[0].CurrentAnchorBalance * latestExchangeRate[0].ExchangeRate - then'.CurrentDeposit
  + now[0].TotalWithdraw - now[0].TotalDeposit\<close>, computed without rounding, where
  \<open>then'\<close> is \<open>then[0]\<close> when \<open>then\<close> has an element and \<open>fallback[0]\<close> otherwise. This
  holds for whatever \<open>floor\<close> computes; with \<open>floor\<close> the greatest integer not above
  its argument the result is the decimal numeral of that integer, a string that reads
  back as the integer.
\<close>

theorem interestEarned_value:
  assumes "RawData.now raw = Some (nw # ns)"
    and "latestExchangeRate raw = xr # rs"
    and "(\<exists>ts. RawData.then' raw = Some (rf # ts)) \<or>
         ((RawData.then' raw = None \<or> RawData.then' raw = Some []) \<and>
          (\<exists>fs. fallback raw = rf # fs))"
    and "parse (CurrentAnchorBalance nw) = Inr balance"
    and "parse (ExchangeRate xr) = Inr er"
    and "parse (CurrentDeposit rf) = Inr cd"
    and "parse (TotalWithdraw nw) = Inr tw"
    and "parse (TotalDeposit nw) = Inr td"
  shows "(\<forall>f. floorBig (balance * er - cd + tw - td) = Inr f \<longrightarrow>
            interestEarned floorBig existing raw = Inr (toFixed f)) \<and>
         interestEarned floor_big existing raw =
            Inr (show_int \<lfloor>balance * er - cd + tw - td\<rfloor>) \<and>
         parse (show_int \<lfloor>balance * er - cd + tw - td\<rfloor>) =
            Inr (of_int \<lfloor>balance * er - cd + tw - td\<rfloor>)"
proof -
  have "length (CurrentAnchorBalance nw) > 0"
    using assms(4) by (rule parse_Inr_nonempty)
  then have b: "parse (if length (CurrentAnchorBalance nw) > 0
                       then CurrentAnchorBalance nw else ''0'') = Inr balance"
    using assms(4) by simp
  have t: "referenceThen raw = Some rf"
    using assms(3) by (rule referenceThen_chosen)
  have v: "interestEarned fl existing raw =
      (case and_then (fl (balance * er - cd + tw - td)) (\<lambda>d. Inr (toFixed d)) of
         Inl _ \<Rightarrow> Inr ''0'' | Inr s \<Rightarrow> Inr s)" for fl
    unfolding interestEarned_reaches_try[OF assms(1,2) b assms(5)] t
      interest_try_value[OF assms(6,7,8)] ..
  have 1: "interestEarned floorBig existing raw = Inr (toFixed f)"
    if "floorBig (balance * er - cd + tw - td) = Inr f" for f
    unfolding v that by simp
  have 2: "interestEarned floor_big existing raw =
      Inr (show_int \<lfloor>balance * er - cd + tw - td\<rfloor>)"
    unfolding v by (simp add: floor_big_def toFixed_of_int)
  show ?thesis using 1 2 parse_show_int by blast
qed

theorem interestEarned_value_witness:
  "interestEarned floor_big () sample_raw = Inr ''70340'' \<and>
   interestEarned floor_big () fallback_raw = Inr ''370340''"
proof -
  have p: "parse (CurrentAnchorBalance sample_now) = Inr (6800001 / 2)"
    "parse (ExchangeRate sample_rate) = Inr (10501 / 10000)"
    "parse (CurrentDeposit sample_then) = Inr 1000000"
    "parse (CurrentDeposit sample_first) = Inr 700000"
    "parse (TotalWithdraw sample_now) = Inr 500000"
    "parse (TotalDeposit sample_now) = Inr 3000000"
    by code_simp+
  have n: "RawData.now sample_raw = Some (sample_now # [])"
    "RawData.now fallback_raw = Some (sample_now # [])"
    by (simp_all add: sample_raw_def fallback_raw_def)
  have r: "latestExchangeRate sample_raw = sample_rate # []"
    "latestExchangeRate fallback_raw = sample_rate # []"
    by (simp_all add: sample_raw_def fallback_raw_def)
  have t1: "(\<exists>ts. RawData.then' sample_raw = Some (sample_then # ts)) \<or>
         ((RawData.then' sample_raw = None \<or> RawData.then' sample_raw = Some []) \<and>
          (\<exists>fs. fallback sample_raw = sample_then # fs))"
    by (simp add: sample_raw_def)
  have t2: "(\<exists>ts. RawData.then' fallback_raw = Some (sample_first # ts)) \<or>
         ((RawData.then' fallback_raw = None \<or> RawData.then' fallback_raw = Some []) \<and>
          (\<exists>fs. fallback fallback_raw = sample_first # fs))"
    by (simp add: fallback_raw_def)
  have s: "show_int \<lfloor>(6800001 / 2 :: rat) * (10501 / 10000) - 1000000 + 500000 - 3000000\<rfloor>
      = ''70340''"
    "show_int \<lfloor>(6800001 / 2 :: rat) * (10501 / 10000) - 700000 + 500000 - 3000000\<rfloor>
      = ''370340''"
    by code_simp+
  from interestEarned_value[OF n(1) r(1) t1 p(1,2,3,5,6), of floor_big "()"]
  have 1: "interestEarned floor_big () sample_raw = Inr ''70340''"
    unfolding s by blast
  from interestEarned_value[OF n(2) r(2) t2 p(1,2,4,5,6), of floor_big "()"]
  have 2: "interestEarned floor_big () fallback_raw = Inr ''370340''"
    unfolding s by blast
  show ?thesis using 1 2 by blast
qed

text \<open>
  C8. When \<open>now\<close> is undefined or empty, \<open>interestEarned\<close> returns \<open>'0'\<close> whatever the
  other fields hold; and when the computation inside \<open>try\<close> raises an error, and so
  when \<open>floor\<close> does, it returns \<open>'0'\<close> too and the error does not leave the function.
\<close>

theorem interestEarned_zero:
  "((RawData.now raw = None \<or> RawData.now raw = Some []) \<longrightarrow>
      interestEarned floorBig existing raw = Inr ''0'') \<and>
   (RawData.now raw = Some (nw # ns) \<and> latestExchangeRate raw = xr # rs \<and>
    parse (if length (CurrentAnchorBalance nw) > 0 then CurrentAnchorBalance nw else ''0'')
      = Inr balance \<and>
    parse (ExchangeRate xr) = Inr er \<and>
    interest_try floorBig (balance * er) (referenceThen raw) nw = Inl err \<longrightarrow>
      interestEarned floorBig existing raw = Inr ''0'') \<and>
   (parse (CurrentDeposit rf) = Inr cd \<and> parse (TotalWithdraw nw) = Inr tw \<and>
    parse (TotalDeposit nw) = Inr td \<and> floorBig (v - cd + tw - td) = Inl err \<longrightarrow>
      interest_try floorBig v (Some rf) nw = Inl err)"
proof (intro conjI impI)
  assume "RawData.now raw = None \<or> RawData.now raw = Some []"
  then show "interestEarned floorBig existing raw = Inr ''0''"
    by (rule interestEarned_no_records)
next
  assume a: "RawData.now raw = Some (nw # ns) \<and> latestExchangeRate raw = xr # rs \<and>
    parse (if length (CurrentAnchorBalance nw) > 0 then CurrentAnchorBalance nw else ''0'')
      = Inr balance \<and>
    parse (ExchangeRate xr) = Inr er \<and>
    interest_try floorBig (balance * er) (referenceThen raw) nw = Inl err"
  have "interestEarned floorBig existing raw =
           (case interest_try floorBig (balance * er) (referenceThen raw) nw of
              Inl _ \<Rightarrow> Inr ''0''
            | Inr s \<Rightarrow> Inr s)"
    by (rule interestEarned_reaches_try) (use a in blast)+
  then show "interestEarned floorBig existing raw = Inr ''0''"
    using a by simp
next
  assume a: "parse (CurrentDeposit rf) = Inr cd \<and> parse (TotalWithdraw nw) = Inr tw \<and>
    parse (TotalDeposit nw) = Inr td \<and> floorBig (v - cd + tw - td) = Inl err"
  have "interest_try floorBig v (Some rf) nw =
           and_then (floorBig (v - cd + tw - td)) (\<lambda>d. Inr (toFixed d))"
    by (rule interest_try_value) (use a in blast)+
  then show "interest_try floorBig v (Some rf) nw = Inl err"
    using a by simp
qed


theorem interestEarned_zero_witness:
  "interestEarned floor_big () mockup_raw = Inr ''0'' \<and>
   interestEarned failing_floor () sample_raw = Inr ''0'' \<and>
   interestEarned floor_big () no_reference_raw = Inr ''0''"
proof -
  have 1: "interestEarned floor_big () mockup_raw = Inr ''0''"
    using interestEarned_zero[where raw = mockup_raw and floorBig = floor_big
        and existing = "()" and nw = sample_now and ns = "[]" and xr = sample_rate and rs = "[]"
        and balance = 0 and er = 0 and err = "BigError []" and rf = sample_then
        and cd = 0 and tw = 0 and td = 0 and v = 0]
    by (simp add: mockup_raw_def)
  have p: "parse (if length (CurrentAnchorBalance sample_now) > 0
                  then CurrentAnchorBalance sample_now else ''0'') = Inr (6800001 / 2)"
    "parse (ExchangeRate sample_rate) = Inr (10501 / 10000)"
    "parse (CurrentDeposit sample_then) = Inr 1000000"
    "parse (TotalWithdraw sample_now) = Inr 500000"
    "parse (TotalDeposit sample_now) = Inr 3000000"
    by code_simp+
  have f: "failing_floor (6800001 / 2 * (10501 / 10000) - 1000000 + 500000 - 3000000) =
      Inl (BigError ''[big.js] Invalid number'')"
    by (simp add: failing_floor_def)
  have t: "referenceThen sample_raw = Some sample_then"
    by (simp add: referenceThen_def first_def sample_raw_def)
  note I = interestEarned_zero[where raw = sample_raw and floorBig = failing_floor
        and existing = "()" and nw = sample_now and ns = "[]" and xr = sample_rate and rs = "[]"
        and balance = "6800001 / 2" and er = "10501 / 10000"
        and err = "BigError ''[big.js] Invalid number''" and rf = sample_then
        and cd = 1000000 and tw = 500000 and td = 3000000
        and v = "6800001 / 2 * (10501 / 10000)"]
  have "interest_try failing_floor (6800001 / 2 * (10501 / 10000)) (Some sample_then) sample_now
      = Inl (BigError ''[big.js] Invalid number'')"
    using I p f by blast
  then have 2: "interestEarned failing_floor () sample_raw = Inr ''0''"
    using I p t by (simp add: sample_raw_def)
  have t': "referenceThen no_reference_raw = None"
    by (simp add: referenceThen_def first_def no_reference_raw_def)
  have "interest_try floor_big (6800001 / 2 * (10501 / 10000)) None sample_now =
      Inl (TypeError ''Cannot read property CurrentDeposit of undefined'')"
    by (simp add: interest_try_def)
  then have 3: "interestEarned floor_big () no_reference_raw = Inr ''0''"
    using interestEarned_zero[where raw = no_reference_raw and floorBig = floor_big
        and existing = "()" and nw = sample_now and ns = "[]" and xr = sample_rate and rs = "[]"
        and balance = "6800001 / 2" and er = "10501 / 10000"
        and err = "TypeError ''Cannot read property CurrentDeposit of undefined''"
        and rf = sample_then and cd = 1000000 and tw = 500000 and td = 3000000
        and v = "6800001 / 2 * (10501 / 10000)"]
      p t'
    by (simp add: no_reference_raw_def)
  show ?thesis using 1 2 3 by blast
qed

text \<open>
  C9, as the spec states it: for every \<open>RawData\<close> with \<open>now\<close> and \<open>latestExchangeRate\<close>
  non-empty and \<open>now[0].CurrentAnchorBalance\<close> the empty string, \<open>interestEarned\<close>
  returns the floor of \<open>0 - then'.CurrentDeposit + now[0].TotalWithdraw -
  now[0].TotalDeposit\<close>. The balance 0 is still multiplied by
  \<open>latestExchangeRate[0].ExchangeRate\<close>, outside \<open>try\<close>: when that string is no number
  (here it is empty) big.js throws and the error leaves the function, though the three
  amounts of the formula are numbers.
\<close>

theorem interestEarned_no_rate_counterexample:
  "RawData.now no_rate_raw = Some [sample_now\<lparr>CurrentAnchorBalance := []\<rparr>] \<and>
   latestExchangeRate no_rate_raw = [sample_rate\<lparr>ExchangeRate := []\<rparr>] \<and>
   parse (CurrentDeposit sample_first) = Inr 700000 \<and>
   parse (TotalWithdraw sample_now) = Inr 500000 \<and>
   parse (TotalDeposit sample_now) = Inr 3000000 \<and>
   interestEarned floor_big () no_rate_raw = Inl (BigError ''[big.js] Invalid number'')"
proof -
  have 1: "RawData.now no_rate_raw = Some [sample_now\<lparr>CurrentAnchorBalance := []\<rparr>]"
    "latestExchangeRate no_rate_raw = [sample_rate\<lparr>ExchangeRate := []\<rparr>]"
    by (simp_all add: no_rate_raw_def)
  have 2: "parse (CurrentDeposit sample_first) = Inr 700000"
    "parse (TotalWithdraw sample_now) = Inr 500000"
    "parse (TotalDeposit sample_now) = Inr 3000000"
    by code_simp+
  have 3: "interestEarned floor_big () no_rate_raw = Inl (BigError ''[big.js] Invalid number'')"
    by (simp add: interestEarned_def no_rate_raw_def first_def big_def mul_big_def
        parse_zero parse_empty)
  show ?thesis using 1 2 3 by blast
qed

text \<open>
  C9, amended. With \<open>now\<close> and \<open>latestExchangeRate\<close> non-empty,
  \<open>now[0].CurrentAnchorBalance\<close> the empty string and
  \<open>latestExchangeRate[0].ExchangeRate\<close> a decimal number, the balance counts as 0:
  \<open>interestEarned\<close> returns the floor of
  \<open>0 - then'.CurrentDeposit + now[0].TotalWithdraw - now[0].TotalDeposit\<close>, with \<open>then'\<close>
  being \<open>then[0]\<close> when \<open>then\<close> has an element and \<open>fallback[0]\<close> otherwise, these
  three amounts being decimal numbers. When \<open>ExchangeRate\<close> is no number, the error of
  big.js leaves the function instead.
\<close>

theorem interestEarned_empty_balance:
  assumes "RawData.now raw = Some (nw # ns)"
    and "latestExchangeRate raw = xr # rs"
    and "(\<exists>ts. RawData.then' raw = Some (rf # ts)) \<or>
         ((RawData.then' raw = None \<or> RawData.then' raw = Some []) \<and>
          (\<exists>fs. fallback raw = rf # fs))"
    and "CurrentAnchorBalance nw = []"
    and "parse (CurrentDeposit rf) = Inr cd"
    and "parse (TotalWithdraw nw) = Inr tw"
    and "parse (TotalDeposit nw) = Inr td"
  shows "(\<forall>er. parse (ExchangeRate xr) = Inr er \<longrightarrow>
            (\<forall>f. floorBig (0 - cd + tw - td) = Inr f \<longrightarrow>
               interestEarned floorBig existing raw = Inr (toFixed f)) \<and>
            interestEarned floor_big existing raw = Inr (show_int \<lfloor>0 - cd + tw - td\<rfloor>) \<and>
            parse (show_int \<lfloor>0 - cd + tw - td\<rfloor>) = Inr (of_int \<lfloor>0 - cd + tw - td\<rfloor>)) \<and>
         (\<forall>e. parse (ExchangeRate xr) = Inl e \<longrightarrow>
            interestEarned floorBig existing raw = Inl e)"
proof (intro conjI allI impI)
  fix er
  assume er: "parse (ExchangeRate xr) = Inr er"
  have b: "parse (if length (CurrentAnchorBalance nw) > 0
                  then CurrentAnchorBalance nw else ''0'') = Inr 0"
    using assms(4) by (simp add: parse_zero)
  have t: "referenceThen raw = Some rf"
    using assms(3) by (rule referenceThen_chosen)
  have v: "interestEarned fl existing raw =
      (case and_then (fl (0 * er - cd + tw - td)) (\<lambda>d. Inr (toFixed d)) of
         Inl _ \<Rightarrow> Inr ''0'' | Inr s \<Rightarrow> Inr s)" for fl
    unfolding interestEarned_reaches_try[OF assms(1,2) b er] t
      interest_try_value[OF assms(5,6,7)] ..
  show "interestEarned floorBig existing raw = Inr (toFixed f)"
    if "floorBig (0 - cd + tw - td) = Inr f" for f
    unfolding v using that by simp
  show "interestEarned floor_big existing raw = Inr (show_int \<lfloor>0 - cd + tw - td\<rfloor>)"
    unfolding v by (simp add: floor_big_def toFixed_of_int)
  show "parse (show_int \<lfloor>0 - cd + tw - td\<rfloor>) = Inr (of_int \<lfloor>0 - cd + tw - td\<rfloor>)"
    by (rule parse_show_int)
next
  fix e
  assume "parse (ExchangeRate xr) = Inl e"
  then show "interestEarned floorBig existing raw = Inl e"
    using assms(1,2,4)
    by (simp add: interestEarned_def first_def big_def mul_big_def parse_zero)
qed

theorem interestEarned_empty_balance_witness:
  "CurrentAnchorBalance (sample_now\<lparr>CurrentAnchorBalance := []\<rparr>) = [] \<and>
   parse (ExchangeRate sample_rate) = Inr (10501 / 10000) \<and>
   interestEarned floor_big () no_balance_raw = Inr ''-3200000'' \<and>
   parse (ExchangeRate (sample_rate\<lparr>ExchangeRate := []\<rparr>)) =
     Inl (BigError ''[big.js] Invalid number'') \<and>
   interestEarned floor_big () no_rate_raw = Inl (BigError ''[big.js] Invalid number'')"
proof -
  let ?n = "sample_now\<lparr>CurrentAnchorBalance := []\<rparr>"
  let ?r = "sample_rate\<lparr>ExchangeRate := []\<rparr>"
  have e: "CurrentAnchorBalance ?n = []" by simp
  have p: "parse (CurrentDeposit sample_first) = Inr 700000"
    "parse (TotalWithdraw ?n) = Inr 500000"
    "parse (TotalDeposit ?n) = Inr 3000000"
    by code_simp+
  have x: "parse (ExchangeRate sample_rate) = Inr (10501 / 10000)"
    by code_simp
  have y: "parse (ExchangeRate ?r) = Inl (BigError ''[big.js] Invalid number'')"
    by (simp add: parse_empty)
  have n: "RawData.now no_balance_raw = Some (?n # [])"
    "RawData.now no_rate_raw = Some (?n # [])"
    by (simp_all add: no_balance_raw_def no_rate_raw_def)
  have r: "latestExchangeRate no_balance_raw = sample_rate # []"
    "latestExchangeRate no_rate_raw = ?r # []"
    by (simp_all add: no_balance_raw_def no_rate_raw_def)
  have t: "(\<exists>ts. RawData.then' no_balance_raw = Some (sample_first # ts)) \<or>
         ((RawData.then' no_balance_raw = None \<or> RawData.then' no_balance_raw = Some []) \<and>
          (\<exists>fs. fallback no_balance_raw = sample_first # fs))"
    "(\<exists>ts. RawData.then' no_rate_raw = Some (sample_first # ts)) \<or>
         ((RawData.then' no_rate_raw = None \<or> RawData.then' no_rate_raw = Some []) \<and>
          (\<exists>fs. fallback no_rate_raw = sample_first # fs))"
    by (simp_all add: no_balance_raw_def no_rate_raw_def)
  have s: "show_int \<lfloor>(0::rat) - 700000 + 500000 - 3000000\<rfloor> = ''-3200000''"
    by code_simp
  from interestEarned_empty_balance[OF n(1) r(1) t(1) e p,
      where floorBig = floor_big and existing = "()"] x
  have 1: "interestEarned floor_big () no_balance_raw = Inr ''-3200000''"
    unfolding s by blast
  from interestEarned_empty_balance[OF n(2) r(2) t(2) e p,
      where floorBig = floor_big and existing = "()"] y
  have 2: "interestEarned floor_big () no_rate_raw = Inl (BigError ''[big.js] Invalid number'')"
    by blast
  show ?thesis using e x y 1 2 by blast
qed

section \<open>Properties of the swap simulation\<close>

lemma min_big_pair:
  "parse s = Inr y \<Longrightarrow> min_big [OfBig x, OfString s] = Inr (min x y)"
  by (simp add: big_def)

text \<open>The record \<open>sellFromSimulation\<close> returns once every operand has been read.\<close>

lemma sellFromSimulation_unfold:
  assumes "parse amount = Inr a"
    and "parse (return_amount sim) = Inr ra"
    and "ra \<noteq> 0"
    and "parse (taxRate taxData) = Inr tr"
    and "1 + tr \<noteq> 0"
    and "parse (commission_amount sim) = Inr ca"
    and "parse (spread_amount sim) = Inr sa"
    and "big fixedGas = Inr fg"
    and "minBig [OfBig (a - round_half_up DP (a / (1 + tr))), OfString (maxTaxUUSD taxData)]
           = Inr tax"
  shows "sellFromSimulation minBig sim amount taxData fixedGas =
    Inr \<lparr>return_amount = return_amount sim,
         spread_amount = spread_amount sim,
         commission_amount = commission_amount sim,
         minimumReceived = toFixed ((ra - tax) * (1 - 1 / 10)),
         swapFee = toFixed (ca + sa),
         beliefPrice = toFixed (round_half_up DP (a / ra)),
         maxSpread = ''0.1'',
         txFee = toFixed (tax + fg),
         fromAmount = toString (a * round_half_up DP (a / ra))\<rparr>"
proof -
  have m: "maxSpread_number = ''0.1''" by (simp add: maxSpread_number_def)
  show ?thesis
    unfolding sellFromSimulation_def
    using assms parse_maxSpread
    by (simp add: big_def div_big_def plus_big_def minus_big_def mul_big_def m)
qed


text \<open>
  C5, as the spec states it: \<open>beliefPrice = amount / return_amount\<close> and
  \<open>tax = min(amount - amount / (1 + taxRate), maxTaxUUSD)\<close>, computed with exact decimal
  arithmetic. Selling 1000000 for a simulated return of 3000000 at a tax rate of 0.001
  gives the belief price \<open>0.33333333333333333333\<close>, which is not the quotient, and a
  fee built on the quotient \<open>1000000 / 1.001\<close> cut after 20 places: a decimal number
  cannot hold either quotient, and big.js rounds a division to 20 decimal places.
\<close>

theorem sellFromSimulation_third_counterexample:
  "sellFromSimulation min_big third_simulation ''1000000'' sample_tax (OfString ''250000'') =
     Inr \<lparr>return_amount = ''3000000'', spread_amount = ''1500'', commission_amount = ''9000'',
          minimumReceived = ''2699100.8991008991008991009'',
          swapFee = ''10500'',
          beliefPrice = ''0.33333333333333333333'',
          maxSpread = ''0.1'',
          txFee = ''250999.000999000999000999'',
          fromAmount = ''333333.33333333333333''\<rparr> \<and>
   parse ''0.33333333333333333333'' = Inr (33333333333333333333 / 100000000000000000000) \<and>
   (33333333333333333333 / 100000000000000000000 :: rat) \<noteq> 1000000 / 3000000"
proof -
  have p: "parse ''1000000'' = Inr 1000000"
    "parse (return_amount third_simulation) = Inr 3000000"
    "parse (taxRate sample_tax) = Inr (1 / 1000)"
    "parse (commission_amount third_simulation) = Inr 9000"
    "parse (spread_amount third_simulation) = Inr 1500"
    "big (OfString ''250000'') = Inr 250000"
    "parse (maxTaxUUSD sample_tax) = Inr 1000000"
    by code_simp+
  have nz: "(3000000 :: rat) \<noteq> 0" "(1 :: rat) + 1 / 1000 \<noteq> 0" by simp_all
  note u = sellFromSimulation_unfold[where minBig = min_big, OF p(1,2) nz(1) p(3) nz(2) p(4,5,6) min_big_pair[OF p(7)]]
  have e: "toFixed ((3000000 - min (1000000 - round_half_up DP (1000000 / (1 + 1 / 1000)))
                       1000000) * (1 - 1 / 10)) = ''2699100.8991008991008991009''"
    "toFixed (9000 + 1500) = ''10500''"
    "toFixed (round_half_up DP (1000000 / 3000000)) = ''0.33333333333333333333''"
    "toFixed (min (1000000 - round_half_up DP (1000000 / (1 + 1 / 1000))) 1000000 + 250000)
       = ''250999.000999000999000999''"
    "toString (1000000 * round_half_up DP (1000000 / 3000000)) = ''333333.33333333333333''"
    by code_simp+
  have f: "return_amount third_simulation = ''3000000''"
    "spread_amount third_simulation = ''1500''"
    "commission_amount third_simulation = ''9000''"
    by (simp_all add: third_simulation_def)
  have 1: "sellFromSimulation min_big third_simulation ''1000000'' sample_tax
      (OfString ''250000'') =
     Inr \<lparr>return_amount = ''3000000'', spread_amount = ''1500'', commission_amount = ''9000'',
          minimumReceived = ''2699100.8991008991008991009'',
          swapFee = ''10500'',
          beliefPrice = ''0.33333333333333333333'',
          maxSpread = ''0.1'',
          txFee = ''250999.000999000999000999'',
          fromAmount = ''333333.33333333333333''\<rparr>"
    unfolding u e f ..
  have 2: "parse ''0.33333333333333333333'' =
      Inr (33333333333333333333 / 100000000000000000000)"
    by code_simp
  have 3: "(33333333333333333333 / 100000000000000000000 :: rat) \<noteq> 1000000 / 3000000"
    by simp
  show ?thesis using 1 2 3 by blast
qed

text \<open>
  C5, amended. For decimal inputs with \<open>return_amount\<close> and \<open>1 + taxRate\<close> not zero,
  \<open>sellFromSimulation\<close> returns the record with
  \<open>beliefPrice = amount / return_amount\<close> rounded to 20 decimal places (half away from
  zero), \<open>swapFee = commission_amount + spread_amount\<close>,
  \<open>minimumReceived = (return_amount - tax) * (1 - 0.1)\<close>, \<open>txFee = tax + fixedGas\<close> and
  \<open>maxSpread = 0.1\<close>, where \<open>tax\<close> is what \<open>min\<close> returns for
  \<open>amount - amount / (1 + taxRate)\<close>, that quotient rounded in the same way, and
  \<open>maxTaxUUSD\<close>. The sums, the difference and the product are exact; a rounded quotient
  is within half a unit of the 20th place of the quotient and equal to it when the
  quotient has no more than 20 places.
\<close>

theorem sellFromSimulation_fields:
  assumes "parse amount = Inr a"
    and "parse (return_amount sim) = Inr ra"
    and "ra \<noteq> 0"
    and "parse (taxRate taxData) = Inr tr"
    and "1 + tr \<noteq> 0"
    and "parse (maxTaxUUSD taxData) = Inr mt"
    and "parse (commission_amount sim) = Inr ca"
    and "parse (spread_amount sim) = Inr sa"
    and "big fixedGas = Inr fg"
  shows "(\<forall>tax. minBig [OfBig (a - round_half_up DP (a / (1 + tr))),
                         OfString (maxTaxUUSD taxData)] = Inr tax \<longrightarrow>
            sellFromSimulation minBig sim amount taxData fixedGas =
              Inr \<lparr>return_amount = return_amount sim,
                   spread_amount = spread_amount sim,
                   commission_amount = commission_amount sim,
                   minimumReceived = toFixed ((ra - tax) * (1 - 1 / 10)),
                   swapFee = toFixed (ca + sa),
                   beliefPrice = toFixed (round_half_up DP (a / ra)),
                   maxSpread = ''0.1'',
                   txFee = toFixed (tax + fg),
                   fromAmount = toString (a * round_half_up DP (a / ra))\<rparr>) \<and>
         min_big [OfBig (a - round_half_up DP (a / (1 + tr))), OfString (maxTaxUUSD taxData)]
           = Inr (min (a - round_half_up DP (a / (1 + tr))) mt) \<and>
         (\<forall>q. \<bar>round_half_up DP q - q\<bar> \<le> 1 / (2 * 10 ^ 20) \<and>
              ((\<exists>n. q * 10 ^ 20 = of_int n) \<longrightarrow> round_half_up DP q = q))"
proof (intro conjI allI impI)
  fix tax
  assume "minBig [OfBig (a - round_half_up DP (a / (1 + tr))),
                  OfString (maxTaxUUSD taxData)] = Inr tax"
  from sellFromSimulation_unfold[where minBig = minBig, OF assms(1-5) assms(7-9) this]
  show "sellFromSimulation minBig sim amount taxData fixedGas =
          Inr \<lparr>return_amount = return_amount sim,
               spread_amount = spread_amount sim,
               commission_amount = commission_amount sim,
               minimumReceived = toFixed ((ra - tax) * (1 - 1 / 10)),
               swapFee = toFixed (ca + sa),
               beliefPrice = toFixed (round_half_up DP (a / ra)),
               maxSpread = ''0.1'',
               txFee = toFixed (tax + fg),
               fromAmount = toString (a * round_half_up DP (a / ra))\<rparr>" .
next
  show "min_big [OfBig (a - round_half_up DP (a / (1 + tr))), OfString (maxTaxUUSD taxData)]
          = Inr (min (a - round_half_up DP (a / (1 + tr))) mt)"
    using assms(6) by (rule min_big_pair)
next
  fix q :: rat
  show "\<bar>round_half_up DP q - q\<bar> \<le> 1 / (2 * 10 ^ 20)"
    using round_half_up_error[of DP q] by (simp add: DP_def)
next
  fix q :: rat
  assume "\<exists>n. q * 10 ^ 20 = of_int n"
  then obtain n where "q * 10 ^ DP = of_int n" by (auto simp: DP_def)
  then show "round_half_up DP q = q" by (rule round_half_up_exact)
qed

theorem sellFromSimulation_fields_witness:
  "sellFromSimulation min_big even_simulation ''1000000'' no_tax (OfBig 250000) =
     Inr \<lparr>return_amount = ''4000000'', spread_amount = ''1500.5'', commission_amount = ''9000'',
          minimumReceived = ''3600000'',
          swapFee = ''10500.5'',
          beliefPrice = ''0.25'',
          maxSpread = ''0.1'',
          txFee = ''250000'',
          fromAmount = ''250000''\<rparr>"
proof -
  have p: "parse ''1000000'' = Inr 1000000"
    "parse (return_amount even_simulation) = Inr 4000000"
    "parse (taxRate no_tax) = Inr 0"
    "parse (maxTaxUUSD no_tax) = Inr 1000000"
    "parse (commission_amount even_simulation) = Inr 9000"
    "parse (spread_amount even_simulation) = Inr (3001 / 2)"
    by code_simp+
  have g: "big (OfBig 250000) = Inr 250000" by (simp add: big_def)
  have nz: "(4000000 :: rat) \<noteq> 0" "(1 :: rat) + 0 \<noteq> 0" by simp_all
  note w = sellFromSimulation_fields[OF p(1,2) nz(1) p(3) nz(2) p(4,5,6) g, of min_big]
  have e: "toFixed ((4000000 - min (1000000 - round_half_up DP (1000000 / (1 + 0))) 1000000)
             * (1 - 1 / 10)) = ''3600000''"
    "toFixed (9000 + 3001 / 2) = ''10500.5''"
    "toFixed (round_half_up DP (1000000 / 4000000)) = ''0.25''"
    "toFixed (min (1000000 - round_half_up DP (1000000 / (1 + 0))) 1000000 + 250000)
       = ''250000''"
    "toString (1000000 * round_half_up DP (1000000 / 4000000)) = ''250000''"
    by code_simp+
  have f: "return_amount even_simulation = ''4000000''"
    "spread_amount even_simulation = ''1500.5''"
    "commission_amount even_simulation = ''9000''"
    by (simp_all add: even_simulation_def)
  from w have "sellFromSimulation min_big even_simulation ''1000000'' no_tax (OfBig 250000) =
     Inr \<lparr>return_amount = return_amount even_simulation,
          spread_amount = spread_amount even_simulation,
          commission_amount = commission_amount even_simulation,
          minimumReceived = toFixed ((4000000 -
             min (1000000 - round_half_up DP (1000000 / (1 + 0))) 1000000) * (1 - 1 / 10)),
          swapFee = toFixed (9000 + 3001 / 2),
          beliefPrice = toFixed (round_half_up DP (1000000 / 4000000)),
          maxSpread = ''0.1'',
          txFee = toFixed (min (1000000 - round_half_up DP (1000000 / (1 + 0))) 1000000 + 250000),
          fromAmount = toString (1000000 * round_half_up DP (1000000 / 4000000))\<rparr>"
    by blast
  then show ?thesis unfolding e f .
qed

section \<open>Properties of the calendar\<close>

text \<open>
  Going back in the calendar never gives a later time: the day number of a date is
  recovered from its year, month and day, the first days of the months follow one
  another, and the day of the month is cut to the length of the month gone back to.
\<close>

lemma div_mod_facts:
  fixes a k :: int
  assumes "0 < k"
  shows "a = a div k * k + a mod k" "0 \<le> a mod k" "a mod k < k"
  using assms by simp_all

lemma days_from_civil_day: "days_from_civil y m d = days_from_civil y m 1 + d - 1"
  by (simp add: days_from_civil_def Let_def)

lemma leap_steps:
  fixes n :: int
  shows "(n + 1) div 100 - n div 100 \<le> (n + 1) div 4 - n div 4"
proof (cases "n mod 100 = 99")
  case True
  define a where "a = n div 100"
  have n: "n = 99 + a * 100" unfolding a_def using div_mod_facts(1)[of 100 n] True by simp
  have 1: "(n + 1) div 100 = a + 1"
  proof -
    have "n + 1 = 0 + (a + 1) * 100" unfolding n by simp
    then show ?thesis by simp
  qed
  have 2: "n div 100 = a" by (simp add: a_def)
  have 3: "(n + 1) div 4 = a * 25 + 25"
  proof -
    have "n + 1 = 0 + (a * 25 + 25) * 4" unfolding n by simp
    then show ?thesis by simp
  qed
  have 4: "n div 4 = a * 25 + 24"
  proof -
    have "n = 3 + (a * 25 + 24) * 4" unfolding n by simp
    then have "n div 4 = 3 div 4 + (a * 25 + 24)" by simp
    then show ?thesis by simp
  qed
  show ?thesis unfolding 1 2 3 4 by simp
next
  case False
  define a where "a = n div 100"
  define b where "b = n mod 100"
  have b: "0 \<le> b" "b \<le> 98" "n = b + a * 100"
    unfolding a_def b_def using div_mod_facts[of 100 n] False by linarith+
  have "n + 1 = (b + 1) + a * 100" unfolding b(3) by simp
  then have "(n + 1) div 100 = (b + 1) div 100 + a" by simp
  moreover have "(b + 1) div 100 = 0" using b by simp
  ultimately have "(n + 1) div 100 = n div 100" by (simp add: a_def)
  moreover have "n div 4 \<le> (n + 1) div 4" by (rule zdiv_mono1) simp_all
  ultimately show ?thesis by simp
qed

lemma year_step: "days_before_year y1 + 365 \<le> days_before_year (y1 + 1)"
proof -
  define e where "e = y1 div 400"
  define yo where "yo = y1 - e * 400"
  have yo: "0 \<le> yo" "yo \<le> 399" "y1 = yo + e * 400"
    unfolding yo_def e_def using div_mod_facts[of 400 y1] by linarith+
  have g: "days_before_year y1 = e * 146097 + yo * 365 + yo div 4 - yo div 100"
    by (simp add: days_before_year_def Let_def e_def yo_def)
  show ?thesis
  proof (cases "yo = 399")
    case True
    have "y1 + 1 = 0 + (e + 1) * 400" using yo(3) True by simp
    then have "(y1 + 1) div 400 = e + 1" by simp
    then have "days_before_year (y1 + 1) = (e + 1) * 146097"
      using yo(3) True by (simp add: days_before_year_def Let_def)
    then show ?thesis unfolding g True by simp
  next
    case False
    then have yo1: "0 \<le> yo + 1" "yo + 1 \<le> 399" using yo by simp_all
    have "y1 + 1 = (yo + 1) + e * 400" using yo(3) by simp
    then have "(y1 + 1) div 400 = e" using yo1 by simp
    then have g1: "days_before_year (y1 + 1) =
        e * 146097 + (yo + 1) * 365 + (yo + 1) div 4 - (yo + 1) div 100"
      using yo(3) by (simp add: days_before_year_def Let_def)
    have "(yo + 1) div 100 - yo div 100 \<le> (yo + 1) div 4 - yo div 4"
      by (rule leap_steps)
    then show ?thesis unfolding g g1 by simp
  qed
qed

lemma civil_roundtrip:
  assumes "civil_from_days z0 = (y, m, d)"
  shows "days_from_civil y m d = z0 \<and> 1 \<le> m \<and> m \<le> 12 \<and> 1 \<le> d"
proof -
  define z where "z = z0 + 719468"
  define era where "era = z div 146097"
  define doe where "doe = z - era * 146097"
  define c where "c = min (doe div 36524) 3"
  define r where "r = doe - c * 36524"
  define q where "q = min (r div 1461) 24"
  define r2 where "r2 = r - q * 1461"
  define yy where "yy = min (r2 div 365) 3"
  define doy where "doy = r2 - yy * 365"
  define yoe where "yoe = c * 100 + q * 4 + yy"
  define mp where "mp = (5 * doy + 2) div 153"
  have doe: "0 \<le> doe" "doe \<le> 146096"
    unfolding doe_def era_def using div_mod_facts[of 146097 z] by linarith+
  have c0: "0 \<le> doe div 36524"
    using doe(1) by (simp add: pos_imp_zdiv_nonneg_iff)
  have c: "0 \<le> c" "c \<le> 3"
    unfolding c_def using c0 by simp_all
  have r: "0 \<le> r" "r \<le> 36524"
    unfolding r_def c_def using div_mod_facts[of 36524 doe] doe c0 by linarith+
  have q0: "0 \<le> r div 1461" "r div 1461 \<le> 24"
    using r div_mod_facts[of 1461 r] by linarith+
  have q: "0 \<le> q" "q \<le> 24" "q = r div 1461"
    unfolding q_def using q0 by simp_all
  have r2: "0 \<le> r2" "r2 \<le> 1460"
    unfolding r2_def q(3) using div_mod_facts[of 1461 r] by linarith+
  have y0: "0 \<le> r2 div 365"
    using r2(1) by (simp add: pos_imp_zdiv_nonneg_iff)
  have yy: "0 \<le> yy" "yy \<le> 3"
    unfolding yy_def using y0 by simp_all
  have doy: "0 \<le> doy" "doy \<le> 365"
    unfolding doy_def yy_def using div_mod_facts[of 365 r2] r2 y0 by linarith+
  have yoe: "0 \<le> yoe" "yoe \<le> 399"
    unfolding yoe_def using c q yy by linarith+
  have mp: "0 \<le> mp" "mp \<le> 11"
    unfolding mp_def using div_mod_facts[of 153 "5 * doy + 2"] doy by linarith+
  have ym: "y = (if (if mp < 10 then mp + 3 else mp - 9) \<le> 2
                 then yoe + era * 400 + 1 else yoe + era * 400)"
    and m: "m = (if mp < 10 then mp + 3 else mp - 9)"
    and d: "d = doy - days_before_month mp + 1"
    using assms
    unfolding civil_from_days_def Let_def z_def[symmetric] era_def[symmetric]
      doe_def[symmetric] c_def[symmetric] r_def[symmetric] q_def[symmetric]
      r2_def[symmetric] yy_def[symmetric] doy_def[symmetric] yoe_def[symmetric]
      mp_def[symmetric]
    by auto
  have m_range: "1 \<le> m" "m \<le> 12" using m mp by (simp_all split: if_splits)
  have d1: "1 \<le> d"
    unfolding d days_before_month_def using div_mod_facts[of 153 "5 * doy + 2"] div_mod_facts[of 5 "153 * mp + 2"]
    unfolding mp_def[symmetric] by linarith
  have y1: "(if m \<le> 2 then y - 1 else y) = yoe + era * 400"
    using ym m by (simp split: if_splits)
  have mp': "(if m > 2 then m - 3 else m + 9) = mp"
    using m mp by (simp split: if_splits)
  have era': "(yoe + era * 400) div 400 = era"
    using yoe by simp
  have yoe4: "yoe div 4 = c * 25 + q"
  proof -
    have "yoe = yy + (c * 25 + q) * 4" unfolding yoe_def by simp
    then have "yoe div 4 = yy div 4 + (c * 25 + q)" by simp
    then show ?thesis using yy by simp
  qed
  have yoe100: "yoe div 100 = c"
  proof -
    have "yoe = (q * 4 + yy) + c * 100" unfolding yoe_def by simp
    then have "yoe div 100 = (q * 4 + yy) div 100 + c" by simp
    moreover have "(q * 4 + yy) div 100 = 0" using q yy by simp
    ultimately show ?thesis by simp
  qed
  have "days_from_civil y m d =
      era * 146097 + (yoe * 365 + yoe div 4 - yoe div 100 + (days_before_month mp + d - 1))
        - 719468"
    unfolding days_from_civil_def days_before_year_def Let_def y1 mp' era' by simp
  also have "days_before_month mp + d - 1 = doy" unfolding d by simp
  also have "yoe * 365 + yoe div 4 - yoe div 100 + doy = doe"
    unfolding yoe4 yoe100 unfolding yoe_def doy_def r2_def r_def by simp
  also have "era * 146097 + doe - 719468 = z0" unfolding doe_def z_def by simp
  finally show ?thesis using m_range d1 by simp
qed


text \<open>The first day of the month with index \<open>k = 12 * year + (month - 1)\<close>.\<close>

lemma month_before: "days_before_month mp < days_before_month (mp + 1)"
proof -
  have "x div 5 < (x + 153) div 5" for x :: int
    using div_mod_facts[of 5 x] div_mod_facts[of 5 "x + 153"] by linarith
  from this[of "153 * mp + 2"] show ?thesis
    by (simp add: days_before_month_def algebra_simps)
qed

lemma month_start_step:
  "days_from_civil (k div 12) (k mod 12 + 1) 1
     < days_from_civil ((k + 1) div 12) ((k + 1) mod 12 + 1) 1"
proof -
  define y where "y = k div 12"
  define mm where "mm = k mod 12"
  have mm: "0 \<le> mm" "mm \<le> 11" "k = mm + y * 12"
    unfolding y_def mm_def using div_mod_facts[of 12 k] by linarith+
  consider "mm = 11" | "mm = 0" | "mm = 1" | "2 \<le> mm" "mm \<le> 10"
    using mm by linarith
  then show ?thesis
  proof cases
    case 1
    have "k + 1 = 0 + (y + 1) * 12" using mm(3) 1 by simp
    then have n: "(k + 1) div 12 = y + 1" "(k + 1) mod 12 = 0" by simp_all
    show ?thesis
      unfolding n y_def[symmetric] mm_def[symmetric] 1
      by (simp add: days_from_civil_def days_before_month_def)
  next
    case 2
    have "k + 1 = 1 + y * 12" using mm(3) 2 by simp
    then have n: "(k + 1) div 12 = y" "(k + 1) mod 12 = 1" by simp_all
    show ?thesis
      unfolding n y_def[symmetric] mm_def[symmetric] 2
      by (simp add: days_from_civil_def days_before_month_def)
  next
    case 3
    have "k + 1 = 2 + y * 12" using mm(3) 3 by simp
    then have n: "(k + 1) div 12 = y" "(k + 1) mod 12 = 2" by simp_all
    have "days_before_year (y - 1) + 365 \<le> days_before_year y"
      using year_step[of "y - 1"] by simp
    then show ?thesis
      unfolding n y_def[symmetric] mm_def[symmetric] 3
      by (simp add: days_from_civil_def days_before_month_def)
  next
    case 4
    have e: "k + 1 = (mm + 1) + y * 12" using mm(3) by simp
    have s: "(mm + 1) div 12 = 0" "(mm + 1) mod 12 = mm + 1" using 4 by simp_all
    have n: "(k + 1) div 12 = y" "(k + 1) mod 12 = mm + 1"
      unfolding e using s by simp_all
    have "days_before_month (mm - 2) < days_before_month (mm - 2 + 1)"
      by (rule month_before)
    then show ?thesis
      unfolding n y_def[symmetric] mm_def[symmetric] using 4
      by (simp add: days_from_civil_def)
  qed
qed

lemma month_start_mono:
  assumes "j \<le> k"
  shows "days_from_civil (j div 12) (j mod 12 + 1) 1
           \<le> days_from_civil (k div 12) (k mod 12 + 1) 1"
  using assms
proof (induction k rule: int_ge_induct)
  case base
  show ?case by simp
next
  case (step i)
  with month_start_step[of i] show ?case by simp
qed

lemma sub_months_utc_le:
  assumes "0 \<le> n"
  shows "sub_months_utc t n \<le> t"
proof (cases "n = 0")
  case True
  then show ?thesis by (simp add: sub_months_utc_def)
next
  case False
  then have n: "1 \<le> n" using assms by simp
  obtain y m d where cfd: "civil_from_days (t div ms_per_day) = (y, m, d)"
    by (cases "civil_from_days (t div ms_per_day)")
  from civil_roundtrip[OF cfd]
  have rt: "days_from_civil y m d = t div ms_per_day" and m: "1 \<le> m" "m \<le> 12"
    and d: "1 \<le> d" by simp_all
  define k where "k = y * 12 + (m - 1)"
  define mi where "mi = k - n"
  define y1 where "y1 = mi div 12"
  define m1 where "m1 = mi mod 12 + 1"
  define first_next where
    "first_next = (if m1 = 12 then days_from_civil (y1 + 1) 1 1
                   else days_from_civil y1 (m1 + 1) 1)"
  define daysInMonth where "daysInMonth = first_next - days_from_civil y1 m1 1"
  have k: "k div 12 = y" "k mod 12 + 1 = m"
  proof -
    have "k = (m - 1) + y * 12" unfolding k_def by simp
    moreover have "(m - 1) div 12 = 0" "(m - 1) mod 12 = m - 1" using m by simp_all
    ultimately show "k div 12 = y" "k mod 12 + 1 = m" by simp_all
  qed
  have m1: "1 \<le> m1" "m1 \<le> 12" "mi = (m1 - 1) + y1 * 12"
    unfolding m1_def y1_def using div_mod_facts[of 12 mi] by linarith+
  have fn: "first_next = days_from_civil ((mi + 1) div 12) ((mi + 1) mod 12 + 1) 1"
  proof (cases "m1 = 12")
    case True
    then have "mi + 1 = 0 + (y1 + 1) * 12" using m1(3) by simp
    then have "(mi + 1) div 12 = y1 + 1" "(mi + 1) mod 12 = 0" by simp_all
    then show ?thesis unfolding first_next_def using True by simp
  next
    case False
    have "mi + 1 = m1 + y1 * 12" using m1(3) by simp
    moreover have "m1 div 12 = 0" "m1 mod 12 = m1" using m1 False by simp_all
    ultimately have "(mi + 1) div 12 = y1" "(mi + 1) mod 12 = m1" by simp_all
    then show ?thesis unfolding first_next_def using False by simp
  qed
  have "mi + 1 \<le> k" unfolding mi_def using n by simp
  from month_start_mono[OF this]
  have "first_next \<le> days_from_civil y m 1" unfolding fn k .
  also have "\<dots> \<le> days_from_civil y m d"
    using days_from_civil_day[of y m d] d by simp
  finally have le: "first_next \<le> t div ms_per_day" unfolding rt .
  have "days_from_civil y1 m1 (min d daysInMonth) \<le> days_from_civil y1 m1 daysInMonth"
    using days_from_civil_day[of y1 m1 "min d daysInMonth"]
      days_from_civil_day[of y1 m1 daysInMonth] by simp
  also have "\<dots> = first_next - 1"
    using days_from_civil_day[of y1 m1 daysInMonth] unfolding daysInMonth_def by simp
  finally have D: "days_from_civil y1 m1 (min d daysInMonth) \<le> t div ms_per_day"
    using le by simp
  have "sub_months_utc t n =
      days_from_civil y1 m1 (min d daysInMonth) * ms_per_day + t mod ms_per_day"
    unfolding sub_months_utc_def cfd Let_def using False
    by (simp add: k_def mi_def y1_def m1_def first_next_def daysInMonth_def)
  also have "\<dots> \<le> t"
  proof -
    have "0 \<le> ms_per_day" by (simp add: ms_per_day_def)
    with D have a: "days_from_civil y1 m1 (min d daysInMonth) * ms_per_day
        \<le> (t div ms_per_day) * ms_per_day"
      by (rule mult_right_mono)
    have b: "(t div ms_per_day) * ms_per_day + t mod ms_per_day = t" by simp
    show ?thesis using a b by linarith
  qed
  finally show ?thesis .
qed

lemma sub_utc_le:
  assumes "0 \<le> years dur" "0 \<le> months dur" "0 \<le> weeks dur" "0 \<le> days dur"
    "0 \<le> hours dur" "0 \<le> minutes dur" "0 \<le> seconds dur"
  shows "sub_utc t dur \<le> t"
proof -
  have "0 \<le> months dur + years dur * 12" using assms by simp
  from sub_months_utc_le[OF this, of t]
  have 1: "sub_months_utc t (months dur + years dur * 12) \<le> t" .
  have 2: "0 \<le> (days dur + weeks dur * 7) * ms_per_day"
    using assms by (simp add: ms_per_day_def)
  have 3: "0 \<le> (seconds dur + (minutes dur + hours dur * 60) * 60) * 1000"
    using assms by simp
  show ?thesis unfolding sub_utc_def Let_def using 1 2 3 by linarith
qed

lemma month_start_strict:
  assumes "j < k"
  shows "days_from_civil (j div 12) (j mod 12 + 1) 1
           < days_from_civil (k div 12) (k mod 12 + 1) 1"
proof -
  have "j + 1 \<le> k" using assms by simp
  from month_start_mono[OF this] month_start_step[of j] show ?thesis by simp
qed

text \<open>
  Going back \<open>n\<close> months ends at the epoch only from the start of the \<open>n\<close>th month after
  it.
\<close>

lemma sub_months_utc_zero:
  assumes "1 \<le> n" "sub_months_utc t n = 0"
  shows "t = days_from_civil ((23640 + n) div 12) ((23640 + n) mod 12 + 1) 1 * ms_per_day"
proof -
  have n0: "n \<noteq> 0" using assms(1) by simp
  obtain y m d where cfd: "civil_from_days (t div ms_per_day) = (y, m, d)"
    by (cases "civil_from_days (t div ms_per_day)")
  from civil_roundtrip[OF cfd]
  have rt: "days_from_civil y m d = t div ms_per_day" and m: "1 \<le> m" "m \<le> 12"
    and d: "1 \<le> d" by simp_all
  define k where "k = y * 12 + (m - 1)"
  define mi where "mi = k - n"
  define y1 where "y1 = mi div 12"
  define m1 where "m1 = mi mod 12 + 1"
  define first_next where
    "first_next = (if m1 = 12 then days_from_civil (y1 + 1) 1 1
                   else days_from_civil y1 (m1 + 1) 1)"
  define daysInMonth where "daysInMonth = first_next - days_from_civil y1 m1 1"
  define D where "D = days_from_civil y1 m1 (min d daysInMonth)"
  have k: "k div 12 = y" "k mod 12 + 1 = m"
  proof -
    have "k = (m - 1) + y * 12" unfolding k_def by simp
    moreover have "(m - 1) div 12 = 0" "(m - 1) mod 12 = m - 1" using m by simp_all
    ultimately show "k div 12 = y" "k mod 12 + 1 = m" by simp_all
  qed
  have m1: "1 \<le> m1" "m1 \<le> 12" "mi = (m1 - 1) + y1 * 12"
    unfolding m1_def y1_def using div_mod_facts[of 12 mi] by linarith+
  have fn: "first_next = days_from_civil ((mi + 1) div 12) ((mi + 1) mod 12 + 1) 1"
  proof (cases "m1 = 12")
    case True
    then have "mi + 1 = 0 + (y1 + 1) * 12" using m1(3) by simp
    then have "(mi + 1) div 12 = y1 + 1" "(mi + 1) mod 12 = 0" by simp_all
    then show ?thesis unfolding first_next_def using True by simp
  next
    case False
    have "mi + 1 = m1 + y1 * 12" using m1(3) by simp
    moreover have "m1 div 12 = 0" "m1 mod 12 = m1" using m1 False by simp_all
    ultimately have "(mi + 1) div 12 = y1" "(mi + 1) mod 12 = m1" by simp_all
    then show ?thesis unfolding first_next_def using False by simp
  qed
  have st: "days_from_civil y1 m1 1 = days_from_civil (mi div 12) (mi mod 12 + 1) 1"
    by (simp add: y1_def m1_def)
  have dim: "1 \<le> daysInMonth"
    unfolding daysInMonth_def fn st using month_start_step[of mi] by simp
  have Dv: "D = days_from_civil y1 m1 1 + min d daysInMonth - 1"
    unfolding D_def using days_from_civil_day[of y1 m1 "min d daysInMonth"] by simp
  have Dlo: "days_from_civil (mi div 12) (mi mod 12 + 1) 1 \<le> D"
    unfolding Dv st[symmetric] using d dim by simp
  have Dhi: "D < days_from_civil ((mi + 1) div 12) ((mi + 1) mod 12 + 1) 1"
    unfolding Dv fn[symmetric] daysInMonth_def by simp
  have sub: "sub_months_utc t n = D * ms_per_day + t mod ms_per_day"
    unfolding sub_months_utc_def cfd Let_def using n0
    by (simp add: k_def mi_def y1_def m1_def first_next_def daysInMonth_def D_def)
  have tm: "0 \<le> t mod ms_per_day" "t mod ms_per_day < ms_per_day"
    by (simp_all add: ms_per_day_def)
  have D0: "D = 0"
  proof (rule ccontr)
    assume "D \<noteq> 0"
    then consider "D \<le> - 1" | "1 \<le> D" by linarith
    then show False
    proof cases
      case 1
      have "0 \<le> ms_per_day" by (simp add: ms_per_day_def)
      with 1 have "D * ms_per_day \<le> (- 1) * ms_per_day" by (rule mult_right_mono)
      with sub assms(2) tm show False by simp
    next
      case 2
      have "0 \<le> ms_per_day" by (simp add: ms_per_day_def)
      with 2 have "1 * ms_per_day \<le> D * ms_per_day" by (rule mult_right_mono)
      with sub assms(2) tm show False by (simp add: ms_per_day_def)
    qed
  qed
  have t0: "t mod ms_per_day = 0" using sub assms(2) D0 by simp
  have e0: "days_from_civil (23640 div 12) (23640 mod 12 + 1) 1 = 0"
    by code_simp
  have e1: "days_from_civil ((23640 + 1) div 12) ((23640 + 1) mod 12 + 1) 1 = 31"
    by code_simp
  have mi: "mi = 23640"
  proof (rule ccontr)
    assume "mi \<noteq> 23640"
    then consider "mi + 1 \<le> 23640" | "23640 < mi" by linarith
    then show False
    proof cases
      case 1
      from month_start_mono[OF 1] Dhi D0 e0 show False by simp
    next
      case 2
      from month_start_strict[OF 2] Dlo D0 e0 show False by simp
    qed
  qed
  have "daysInMonth = 31"
    unfolding daysInMonth_def fn st mi using e0 e1 by simp
  then have "min d daysInMonth = 1 \<longleftrightarrow> d = 1" using d by auto
  moreover have "min d daysInMonth = 1"
    using Dv D0 st mi e0 by simp
  ultimately have d1: "d = 1" by simp
  have "k = 23640 + n" using mi mi_def by simp
  then have "days_from_civil y m 1 =
      days_from_civil ((23640 + n) div 12) ((23640 + n) mod 12 + 1) 1"
    using k by simp
  then have "t div ms_per_day =
      days_from_civil ((23640 + n) div 12) ((23640 + n) mod 12 + 1) 1"
    using rt d1 by simp
  moreover have "t = (t div ms_per_day) * ms_per_day + t mod ms_per_day" by simp
  ultimately show ?thesis using t0 by simp
qed

section \<open>Properties of the query variables\<close>

lemma sub_utc_days: "sub_utc t (no_duration\<lparr>days := n\<rparr>) = t - n * ms_per_day"
  by (simp add: sub_utc_def sub_months_utc_def no_duration_def)

lemma sub_utc_weeks: "sub_utc t (no_duration\<lparr>weeks := n\<rparr>) = t - n * 7 * ms_per_day"
  by (simp add: sub_utc_def sub_months_utc_def no_duration_def)

lemma getDates_then_le:
  assumes "0 \<le> clock"
    and "\<forall>d \<in> {no_duration\<lparr>years := 1\<rparr>, no_duration\<lparr>months := 1\<rparr>,
                no_duration\<lparr>weeks := 1\<rparr>, no_duration\<lparr>days := 1\<rparr>}. sub clock d \<le> clock"
  shows "snd (getDates sub clock period) \<le> clock"
  using assms by (cases period) (simp_all add: getDates_def)

lemma sub_utc_one_le:
  "\<forall>d \<in> {no_duration\<lparr>years := 1\<rparr>, no_duration\<lparr>months := 1\<rparr>,
          no_duration\<lparr>weeks := 1\<rparr>, no_duration\<lparr>days := 1\<rparr>}. sub_utc clock d \<le> clock"
  by (auto intro!: sub_utc_le simp: no_duration_def)

lemma sub_utc_months: "sub_utc t (no_duration\<lparr>months := n\<rparr>) = sub_months_utc t n"
  by (simp add: sub_utc_def no_duration_def)

lemma sub_utc_years: "sub_utc t (no_duration\<lparr>years := n\<rparr>) = sub_months_utc t (n * 12)"
  by (simp add: sub_utc_def no_duration_def)

lemma sub_utc_month_zero:
  "sub_utc t (no_duration\<lparr>months := 1\<rparr>) = 0 \<longleftrightarrow> t = 2678400000"
proof
  assume "sub_utc t (no_duration\<lparr>months := 1\<rparr>) = 0"
  then have "sub_months_utc t 1 = 0" by (simp add: sub_utc_months)
  from sub_months_utc_zero[OF _ this]
  have "t = days_from_civil ((23640 + 1) div 12) ((23640 + 1) mod 12 + 1) 1 * ms_per_day"
    by simp
  also have "\<dots> = 2678400000" by code_simp
  finally show "t = 2678400000" .
next
  assume "t = 2678400000"
  moreover have "sub_utc 2678400000 (no_duration\<lparr>months := 1\<rparr>) = 0" by code_simp
  ultimately show "sub_utc t (no_duration\<lparr>months := 1\<rparr>) = 0" by simp
qed

lemma sub_utc_year_zero:
  "sub_utc t (no_duration\<lparr>years := 1\<rparr>) = 0 \<longleftrightarrow> t = 31536000000"
proof
  assume "sub_utc t (no_duration\<lparr>years := 1\<rparr>) = 0"
  then have "sub_months_utc t 12 = 0" by (simp add: sub_utc_years)
  from sub_months_utc_zero[OF _ this]
  have "t = days_from_civil ((23640 + 12) div 12) ((23640 + 12) mod 12 + 1) 1 * ms_per_day"
    by simp
  also have "\<dots> = 31536000000" by code_simp
  finally show "t = 31536000000" .
next
  assume "t = 31536000000"
  moreover have "sub_utc 31536000000 (no_duration\<lparr>years := 1\<rparr>) = 0" by code_simp
  ultimately show "sub_utc t (no_duration\<lparr>years := 1\<rparr>) = 0" by simp
qed

lemma getDates_then_zero:
  "snd (getDates sub clock period) = 0 \<longleftrightarrow>
     period = Total \<or>
     period = Year \<and> sub clock (no_duration\<lparr>years := 1\<rparr>) = 0 \<or>
     period = Month \<and> sub clock (no_duration\<lparr>months := 1\<rparr>) = 0 \<or>
     period = Week \<and> sub clock (no_duration\<lparr>weeks := 1\<rparr>) = 0 \<or>
     period = Day \<and> sub clock (no_duration\<lparr>days := 1\<rparr>) = 0"
  by (cases period) (simp_all add: getDates_def)

lemma sub_utc_week_zero: "sub_utc t (no_duration\<lparr>weeks := 1\<rparr>) = 0 \<longleftrightarrow> t = 604800000"
  by (simp add: sub_utc_weeks ms_per_day_def)

lemma sub_utc_day_zero: "sub_utc t (no_duration\<lparr>days := 1\<rparr>) = 0 \<longleftrightarrow> t = 86400000"
  by (simp add: sub_utc_days ms_per_day_def)

text \<open>
  C10, as the spec states it: for every period and every non-negative current time
  \<open>then = 0\<close> exactly when the period is \<open>'total'\<close>. One day after the epoch the period
  \<open>'day'\<close> gives \<open>then = 0\<close> as well.
\<close>

theorem getDates_day_after_epoch_counterexample:
  "(0 :: int) \<le> 86400000 \<and> snd (getDates sub_utc 86400000 Day) = 0 \<and> Day \<noteq> Total"
  by (simp add: getDates_def sub_utc_days ms_per_day_def)

text \<open>
  C10, amended. For every period and every non-negative current time \<open>getDates\<close>
  returns the current time as \<open>now\<close>, and as \<open>then\<close> 0 when the period is \<open>'total'\<close> and
  otherwise exactly the time that \<open>sub\<close> of date-fns gives for one year, one month, one
  week or one day before \<open>now\<close>, according to the period. So \<open>then = 0\<close> exactly when
  the period is \<open>'total'\<close> or \<open>sub\<close> gives the epoch itself for the period, and
  \<open>then <= now\<close> whenever \<open>sub\<close> returns no later time than it is given. In UTC \<open>sub\<close>
  never returns a later time, a day back is 86400000 ms and a week back 604800000 ms,
  and \<open>then = 0\<close> for another period than \<open>'total'\<close> at one current time for each
  period only: 31536000000 for \<open>'year'\<close>, 2678400000 for \<open>'month'\<close>, 604800000 for
  \<open>'week'\<close> and 86400000 for \<open>'day'\<close>. \<open>mapVariables\<close> maps both times to whole seconds
  by floor division by 1000, keeps \<open>walletAddress\<close> and sets \<open>stable_denom\<close> to
  \<open>'uusd'\<close>.
\<close>

theorem getDates_mapVariables:
  assumes "0 \<le> clock"
  shows "getDates sub clock Total = (clock, 0) \<and>
         getDates sub clock Year = (clock, sub clock (no_duration\<lparr>years := 1\<rparr>)) \<and>
         getDates sub clock Month = (clock, sub clock (no_duration\<lparr>months := 1\<rparr>)) \<and>
         getDates sub clock Week = (clock, sub clock (no_duration\<lparr>weeks := 1\<rparr>)) \<and>
         getDates sub clock Day = (clock, sub clock (no_duration\<lparr>days := 1\<rparr>)) \<and>
         (snd (getDates sub clock period) = 0 \<longleftrightarrow>
            period = Total \<or>
            period = Year \<and> sub clock (no_duration\<lparr>years := 1\<rparr>) = 0 \<or>
            period = Month \<and> sub clock (no_duration\<lparr>months := 1\<rparr>) = 0 \<or>
            period = Week \<and> sub clock (no_duration\<lparr>weeks := 1\<rparr>) = 0 \<or>
            period = Day \<and> sub clock (no_duration\<lparr>days := 1\<rparr>) = 0) \<and>
         ((\<forall>d \<in> {no_duration\<lparr>years := 1\<rparr>, no_duration\<lparr>months := 1\<rparr>,
                  no_duration\<lparr>weeks := 1\<rparr>, no_duration\<lparr>days := 1\<rparr>}. sub clock d \<le> clock) \<longrightarrow>
            snd (getDates sub clock period) \<le> fst (getDates sub clock period)) \<and>
         snd (getDates sub_utc clock period) \<le> fst (getDates sub_utc clock period) \<and>
         snd (getDates sub_utc clock Day) = clock - 86400000 \<and>
         snd (getDates sub_utc clock Week) = clock - 604800000 \<and>
         (snd (getDates sub_utc clock period) = 0 \<longleftrightarrow>
            period = Total \<or>
            period = Year \<and> clock = 31536000000 \<or>
            period = Month \<and> clock = 2678400000 \<or>
            period = Week \<and> clock = 604800000 \<or>
            period = Day \<and> clock = 86400000) \<and>
         RawVariables.walletAddress (mapVariables v) = Variables.walletAddress v \<and>
         RawVariables.now (mapVariables v) = \<lfloor>real_of_int (Variables.now v) / 1000\<rfloor> \<and>
         RawVariables.then' (mapVariables v) = \<lfloor>real_of_int (Variables.then' v) / 1000\<rfloor> \<and>
         stable_denom (mapVariables v) = ''uusd''"
proof -
  have now: "fst (getDates s clock p) = clock" for s p
    by (simp add: getDates_def)
  have utc: "snd (getDates sub_utc clock period) \<le> clock"
    using assms sub_utc_one_le by (rule getDates_then_le)
  have fl: "\<lfloor>real_of_int n / 1000\<rfloor> = n div 1000" for n :: int
    using floor_divide_of_int_eq[of n 1000, where ?'a = real] by simp
  have zero: "snd (getDates sub_utc clock period) = 0 \<longleftrightarrow>
            period = Total \<or>
            period = Year \<and> clock = 31536000000 \<or>
            period = Month \<and> clock = 2678400000 \<or>
            period = Week \<and> clock = 604800000 \<or>
            period = Day \<and> clock = 86400000"
    unfolding getDates_then_zero sub_utc_year_zero sub_utc_month_zero sub_utc_week_zero
      sub_utc_day_zero by (rule refl)
  show ?thesis
  proof (intro conjI impI)
    assume "\<forall>d \<in> {no_duration\<lparr>years := 1\<rparr>, no_duration\<lparr>months := 1\<rparr>,
                  no_duration\<lparr>weeks := 1\<rparr>, no_duration\<lparr>days := 1\<rparr>}. sub clock d \<le> clock"
    with assms show "snd (getDates sub clock period) \<le> fst (getDates sub clock period)"
      unfolding now by (rule getDates_then_le)
  next
    show "snd (getDates sub_utc clock period) \<le> fst (getDates sub_utc clock period)"
      unfolding now by (rule utc)
  next
    show "snd (getDates sub_utc clock period) = 0 \<longleftrightarrow>
            period = Total \<or>
            period = Year \<and> clock = 31536000000 \<or>
            period = Month \<and> clock = 2678400000 \<or>
            period = Week \<and> clock = 604800000 \<or>
            period = Day \<and> clock = 86400000"
      by (rule zero)
  next
    show "snd (getDates sub clock period) = 0 \<longleftrightarrow>
            period = Total \<or>
            period = Year \<and> sub clock (no_duration\<lparr>years := 1\<rparr>) = 0 \<or>
            period = Month \<and> sub clock (no_duration\<lparr>months := 1\<rparr>) = 0 \<or>
            period = Week \<and> sub clock (no_duration\<lparr>weeks := 1\<rparr>) = 0 \<or>
            period = Day \<and> sub clock (no_duration\<lparr>days := 1\<rparr>) = 0"
      by (rule getDates_then_zero)
  qed (simp_all add: getDates_def mapVariables_def sub_utc_days sub_utc_weeks ms_per_day_def fl)
qed

theorem getDates_mapVariables_witness:
  "getDates sub_utc 1617235200000 Month = (1617235200000, 1614556800000) \<and>
   getDates sub_utc 1617235200000 Year = (1617235200000, 1585699200000) \<and>
   getDates sub_utc 1617235200000 Total = (1617235200000, 0) \<and>
   snd (getDates sub_utc 1617235200000 Month) \<noteq> 0 \<and>
   snd (getDates sub_utc 2678400000 Month) = 0 \<and>
   mapVariables \<lparr>Variables.walletAddress = ''terra1x'', Variables.now = 1617235200999,
                  Variables.then' = 1614556800000\<rparr> =
     \<lparr>RawVariables.walletAddress = ''terra1x'', RawVariables.now = 1617235200,
      RawVariables.then' = 1614556800, stable_denom = ''uusd''\<rparr>"
proof -
  let ?v = "\<lparr>Variables.walletAddress = ''terra1x'', Variables.now = 1617235200999,
             Variables.then' = 1614556800000\<rparr>"
  have c: "(0 :: int) \<le> 1617235200000" by simp
  have c': "(0 :: int) \<le> 2678400000" by simp
  have y: "sub_utc 1617235200000 (no_duration\<lparr>years := 1\<rparr>) = 1585699200000"
    by code_simp
  have m: "sub_utc 1617235200000 (no_duration\<lparr>months := 1\<rparr>) = 1614556800000"
    by code_simp
  have w: "sub_utc 1617235200000 (no_duration\<lparr>weeks := 1\<rparr>) = 1616630400000"
    by code_simp
  have d: "sub_utc 1617235200000 (no_duration\<lparr>days := 1\<rparr>) = 1617148800000"
    by code_simp
  have s: "\<forall>d \<in> {no_duration\<lparr>years := 1\<rparr>, no_duration\<lparr>months := 1\<rparr>,
                no_duration\<lparr>weeks := 1\<rparr>, no_duration\<lparr>days := 1\<rparr>}.
             sub_utc 1617235200000 d \<le> 1617235200000"
    by (simp add: y m w d)
  note at_month = getDates_mapVariables[where sub = sub_utc and period = Month and v = ?v, OF c]
  from at_month s
  have 1: "snd (getDates sub_utc 1617235200000 Month) \<le> fst (getDates sub_utc 1617235200000 Month)"
    and 2: "RawVariables.walletAddress (mapVariables ?v) = ''terra1x''"
    and 3: "RawVariables.now (mapVariables ?v) = 1617235200"
    and 4: "RawVariables.then' (mapVariables ?v) = 1614556800"
    and 5: "stable_denom (mapVariables ?v) = ''uusd''"
    by simp_all
  from at_month
  have 6: "getDates sub_utc 1617235200000 Total = (1617235200000, 0)"
    and 7: "getDates sub_utc 1617235200000 Year = (1617235200000, 1585699200000)"
    and 8: "getDates sub_utc 1617235200000 Month = (1617235200000, 1614556800000)"
    unfolding y m by blast+
  from at_month
  have "snd (getDates sub_utc 1617235200000 Month) = 0 \<longleftrightarrow>
            Month = Total \<or>
            Month = Year \<and> (1617235200000 :: int) = 31536000000 \<or>
            Month = Month \<and> (1617235200000 :: int) = 2678400000 \<or>
            Month = Week \<and> (1617235200000 :: int) = 604800000 \<or>
            Month = Day \<and> (1617235200000 :: int) = 86400000"
    by blast
  then have 9: "snd (getDates sub_utc 1617235200000 Month) \<noteq> 0" by simp
  from getDates_mapVariables[where sub = sub_utc and period = Month and clock = 2678400000
      and v = ?v, OF c']
  have "snd (getDates sub_utc 2678400000 Month) = 0 \<longleftrightarrow>
            Month = Total \<or>
            Month = Year \<and> (2678400000 :: int) = 31536000000 \<or>
            Month = Month \<and> (2678400000 :: int) = 2678400000 \<or>
            Month = Week \<and> (2678400000 :: int) = 604800000 \<or>
            Month = Day \<and> (2678400000 :: int) = 86400000"
    by blast
  then have 10: "snd (getDates sub_utc 2678400000 Month) = 0" by simp
  have "mapVariables ?v =
     \<lparr>RawVariables.walletAddress = ''terra1x'', RawVariables.now = 1617235200,
      RawVariables.then' = 1614556800, stable_denom = ''uusd''\<rparr>"
    using 2 3 4 5 by (cases "mapVariables ?v") simp
  then show ?thesis using 1 6 7 8 9 10 by simp
qed

section \<open>The arithmetic transforms and the state outside their arguments\<close>



















end
